theory Spec2Isabelle
  imports Main "HOL-Library.Sublist" "HOL-Library.Multiset"
begin

section \<open>Data model\<close>

text \<open>
  The table \<open>code_checkpoints\<close> (server/src/db/schema.ts) and the zod schema
  \<open>codeCheckpointSchema\<close> (server/src/schema.ts). \<open>id\<close> is a \<open>serial\<close> column, \<open>created_at\<close>
  a \<open>timestamp\<close> (an integer count of microseconds), \<open>tags\<close> a \<open>text[]\<close> and \<open>embedding\<close> a
  \<open>real[]\<close> column. Nothing is assumed of the arithmetic of \<open>real\<close> but what each definition
  asks of its element type \<open>'n\<close> (a zero, a sum, a product, and the linear order that
  \<open>ORDER BY\<close> sorts by), so every theorem holds of the rounding arithmetic of the database
  as of exact numbers. The id of a row is an integer, as the column is; the id that a
  caller sends is any number (\<open>js_number\<close> below). The field \<open>id\<close> is written \<open>id'\<close> and
  \<open>total\<close> is written \<open>total'\<close>.
\<close>

type_synonym timestamp = int

record 'n CodeCheckpoint =
  id' :: int
  title :: string
  summary :: string
  code_snippet :: string
  user_feedback :: string
  programming_language :: string
  tags :: "string list"
  embedding :: "'n list"
  created_at :: timestamp

text \<open>\<open>CreateCodeCheckpointInput\<close>: the output type of \<open>createCodeCheckpointInputSchema\<close>.\<close>

record 'n CreateCodeCheckpointInput =
  c_title :: string
  c_summary :: string
  c_code_snippet :: string
  c_user_feedback :: string
  c_programming_language :: string
  c_tags :: "string list"
  c_embedding :: "'n list"

text \<open>
  A key of an input object: the object does not have it (\<open>Absent\<close>), has it with the value
  \<open>undefined\<close> (\<open>Undefined\<close>; an optional key of a zod schema admits it and keeps it), or has
  it with a value.
\<close>

datatype 'a field = Absent | Undefined | Present 'a

text \<open>
  A number that reaches a handler as an id. The procedures parse it with \<open>z.number()\<close>,
  which asks for no integer and no range: it is an integer of any size, or a number that
  is no integer.
\<close>

datatype js_number = JInteger int | JNonInteger

text \<open>\<open>UpdateCodeCheckpointInput\<close>: \<open>id\<close> is a number and every other key is optional.\<close>

record 'n UpdateCodeCheckpointInput =
  u_id :: js_number
  u_title :: "string field"
  u_summary :: "string field"
  u_code_snippet :: "string field"
  u_user_feedback :: "string field"
  u_programming_language :: "string field"
  u_tags :: "string list field"
  u_embedding :: "'n list field"

text \<open>\<open>SearchCodeCheckpointsInput\<close>: the output type of \<open>searchCodeCheckpointsInputSchema\<close>.\<close>

record 'n SearchCodeCheckpointsInput =
  s_query :: "string option"
  s_keywords :: "string list option"
  s_programming_language :: "string option"
  s_tags :: "string list option"
  s_embedding :: "'n list option"
  s_limit :: nat
  s_offset :: nat

record 'n SearchResults =
  results :: "'n CodeCheckpoint list"
  total' :: nat
  has_more :: bool

text \<open>
  The database: the rows of the table in the order in which a scan of the table meets them,
  and the last value handed out by the sequence behind the \<open>serial\<close> column. SQL fixes no
  order of the rows of a table; the list is the order of the engine.
\<close>

record 'n Store =
  rows :: "'n CodeCheckpoint list"
  id_seq :: int

section \<open>Input validation (server/src/schema.ts)\<close>

text \<open>
  What a caller sends, before a schema has parsed it: a key may be missing (\<open>None\<close>). The
  values are taken to be of the right JSON type already; the model covers the checks on
  top of the types (\<open>min(1)\<close>, \<open>positive()\<close>, \<open>nonnegative()\<close>, \<open>default(..)\<close>, required
  keys). zod reports every failed check, not only the first.
\<close>

datatype ZodIssueCode = invalid_type | too_small

record ZodIssue =
  issue_code :: ZodIssueCode
  issue_path :: string
  issue_message :: "string option"

record 'n RawCreateCodeCheckpointInput =
  rc_title :: "string option"
  rc_summary :: "string option"
  rc_code_snippet :: "string option"
  rc_user_feedback :: "string option"
  rc_programming_language :: "string option"
  rc_tags :: "string list option"
  rc_embedding :: "'n list option"

record 'n RawSearchCodeCheckpointsInput =
  rs_query :: "string option"
  rs_keywords :: "string list option"
  rs_programming_language :: "string option"
  rs_tags :: "string list option"
  rs_embedding :: "'n list option"
  rs_limit :: "int option"
  rs_offset :: "int option"

definition required :: "string \<Rightarrow> 'a option \<Rightarrow> ZodIssue list" where
  "required p v =
     (case v of
        None \<Rightarrow> [\<lparr>issue_code = invalid_type, issue_path = p, issue_message = None\<rparr>]
      | Some _ \<Rightarrow> [])"

text \<open>\<open>z.string().min(1, msg)\<close> on the key \<open>p\<close>.\<close>

definition z_string_min1 :: "string \<Rightarrow> string \<Rightarrow> string option \<Rightarrow> ZodIssue list" where
  "z_string_min1 p msg v =
     (case v of
        None \<Rightarrow> required p v
      | Some s \<Rightarrow>
          if length s < 1
          then [\<lparr>issue_code = too_small, issue_path = p, issue_message = Some msg\<rparr>]
          else [])"

definition create_issues :: "'n RawCreateCodeCheckpointInput \<Rightarrow> ZodIssue list" where
  "create_issues raw =
     z_string_min1 ''title'' ''Title is required'' (rc_title raw) @
     z_string_min1 ''summary'' ''Summary is required'' (rc_summary raw) @
     z_string_min1 ''code_snippet'' ''Code snippet is required'' (rc_code_snippet raw) @
     z_string_min1 ''user_feedback'' ''User feedback is required'' (rc_user_feedback raw) @
     z_string_min1 ''programming_language'' ''Programming language is required''
       (rc_programming_language raw) @
     required ''embedding'' (rc_embedding raw)"

text \<open>
  \<open>createCodeCheckpointInputSchema\<close>: five strings with \<open>min(1)\<close>, \<open>tags\<close> an array of strings
  with the default \<open>[]\<close>, \<open>embedding\<close> an array of numbers (\<open>z.array(z.number())\<close>, with no
  bound on its length).
\<close>

definition createCodeCheckpointInputSchema ::
  "'n RawCreateCodeCheckpointInput \<Rightarrow> ZodIssue list + 'n CreateCodeCheckpointInput" where
  "createCodeCheckpointInputSchema raw =
     (case (rc_title raw, rc_summary raw, rc_code_snippet raw, rc_user_feedback raw,
            rc_programming_language raw, rc_embedding raw) of
        (Some t, Some s, Some c, Some f, Some l, Some e) \<Rightarrow>
          if create_issues raw = [] then
            Inr \<lparr>c_title = t, c_summary = s, c_code_snippet = c, c_user_feedback = f,
                 c_programming_language = l,
                 c_tags = (case rc_tags raw of None \<Rightarrow> [] | Some ts \<Rightarrow> ts),
                 c_embedding = e\<rparr>
          else Inl (create_issues raw)
      | _ \<Rightarrow> Inl (create_issues raw))"

text \<open>
  \<open>searchCodeCheckpointsInputSchema\<close>: \<open>limit\<close> is \<open>z.number().int().positive().default(20)\<close>
  and \<open>offset\<close> is \<open>z.number().int().nonnegative().default(0)\<close>; the other keys are optional.
  What the schema gives back has a \<open>limit\<close> and an \<open>offset\<close> that are not negative.
\<close>

definition search_issues :: "'n RawSearchCodeCheckpointsInput \<Rightarrow> ZodIssue list" where
  "search_issues raw =
     (case rs_limit raw of
        None \<Rightarrow> []
      | Some n \<Rightarrow>
          if n > 0 then []
          else [\<lparr>issue_code = too_small, issue_path = ''limit'', issue_message = None\<rparr>]) @
     (case rs_offset raw of
        None \<Rightarrow> []
      | Some n \<Rightarrow>
          if n \<ge> 0 then []
          else [\<lparr>issue_code = too_small, issue_path = ''offset'', issue_message = None\<rparr>])"

definition searchCodeCheckpointsInputSchema ::
  "'n RawSearchCodeCheckpointsInput \<Rightarrow> ZodIssue list + 'n SearchCodeCheckpointsInput" where
  "searchCodeCheckpointsInputSchema raw =
     (if search_issues raw = [] then
        Inr \<lparr>s_query = rs_query raw, s_keywords = rs_keywords raw,
             s_programming_language = rs_programming_language raw, s_tags = rs_tags raw,
             s_embedding = rs_embedding raw,
             s_limit = (case rs_limit raw of None \<Rightarrow> 20 | Some n \<Rightarrow> nat n),
             s_offset = (case rs_offset raw of None \<Rightarrow> 0 | Some n \<Rightarrow> nat n)\<rparr>
      else Inl (search_issues raw))"

section \<open>The conditions of the search query\<close>

text \<open>
  \<open>ILIKE\<close>. PostgreSQL folds the case of both sides and matches the text against the
  pattern, in which \<open>%\<close> stands for any sequence of characters, \<open>_\<close> for any one character
  and a backslash takes the character after it literally. Characters are those of
  \<open>char\<close>, and only the letters A to Z have a lower case. A pattern that ends in a lone
  backslash is an error in PostgreSQL; the handler never builds one (its patterns end in
  \<open>%\<close>), and the model matches nothing there.
\<close>

definition lower :: "char \<Rightarrow> char" where
  "lower c =
     (case map_of (zip ''ABCDEFGHIJKLMNOPQRSTUVWXYZ'' ''abcdefghijklmnopqrstuvwxyz'') c of
        None \<Rightarrow> c
      | Some l \<Rightarrow> l)"

fun like :: "string \<Rightarrow> string \<Rightarrow> bool" where
  "like t [] = (t = [])"
| "like t (p # ps) =
     (if p = CHR ''%'' then
        like t ps \<or> (case t of [] \<Rightarrow> False | _ # ts \<Rightarrow> like ts (p # ps))
      else if p = CHR ''_'' then
        (case t of [] \<Rightarrow> False | _ # ts \<Rightarrow> like ts ps)
      else if p = CHR 0x5C then
        (case ps of
           [] \<Rightarrow> False
         | e # ps' \<Rightarrow> (case t of [] \<Rightarrow> False | c # ts \<Rightarrow> c = e \<and> like ts ps'))
      else
        (case t of [] \<Rightarrow> False | c # ts \<Rightarrow> c = p \<and> like ts ps))"

definition ilike :: "string \<Rightarrow> string \<Rightarrow> bool" where
  "ilike t pattern = like (map lower t) (map lower pattern)"

text \<open>\<open>array_to_string(tags, sep)\<close>: the elements, with \<open>sep\<close> between neighbours.\<close>

fun array_to_string :: "string list \<Rightarrow> string \<Rightarrow> string" where
  "array_to_string [] sep = []"
| "array_to_string [x] sep = x"
| "array_to_string (x # y # ys) sep = x @ sep @ array_to_string (y # ys) sep"

text \<open>
  The conditions the handler builds with drizzle:
  \<open>eq(programming_language, l)\<close>, \<open>tags @> ARRAY[tag]::text[]\<close>, \<open>ilike(title, p)\<close>,
  \<open>ilike(summary, p)\<close>, \<open>array_to_string(tags, ' ') ILIKE p\<close>, \<open>or(...)\<close> and \<open>and(...)\<close>.
  No column is nullable, so a condition is true or false of a row.
\<close>

datatype SQL =
    Eq_programming_language string
  | Tags_contains "string list"
  | ILike_title string
  | ILike_summary string
  | ILike_tags_string string
  | SqlOr "SQL list"
  | SqlAnd "SQL list"

fun eval_sql :: "SQL \<Rightarrow> 'n CodeCheckpoint \<Rightarrow> bool" where
  "eval_sql (Eq_programming_language l) r = (programming_language r = l)"
| "eval_sql (Tags_contains ts) r = (set ts \<subseteq> set (tags r))"
| "eval_sql (ILike_title p) r = ilike (title r) p"
| "eval_sql (ILike_summary p) r = ilike (summary r) p"
| "eval_sql (ILike_tags_string p) r = ilike (array_to_string (tags r) '' '') p"
| "eval_sql (SqlOr cs) r = (\<exists>c \<in> set cs. eval_sql c r)"
| "eval_sql (SqlAnd cs) r = (\<forall>c \<in> set cs. eval_sql c r)"

text \<open>\<open>if (input.programming_language)\<close>: a missing key and the empty string add no condition.\<close>

definition language_conditions :: "string option \<Rightarrow> SQL list" where
  "language_conditions l =
     (case l of
        None \<Rightarrow> []
      | Some v \<Rightarrow> if v = [] then [] else [Eq_programming_language v])"

text \<open>
  \<open>if (input.tags && input.tags.length > 0)\<close>: one containment test for each requested tag
  (\<open>filter(Boolean)\<close> keeps them all), taken alone when there is one and under \<open>or\<close> when
  there are more.
\<close>

definition tag_conditions :: "string list option \<Rightarrow> SQL list" where
  "tag_conditions ts =
     (case ts of
        None \<Rightarrow> []
      | Some requested \<Rightarrow>
          if length requested > 0 then
            (let validTagConditions = map (\<lambda>tag. Tags_contains [tag]) requested
             in case validTagConditions of
                  [] \<Rightarrow> []
                | [c] \<Rightarrow> [c]
                | _ \<Rightarrow> [SqlOr validTagConditions])
          else [])"

text \<open>
  \<open>if (input.keywords && input.keywords.length > 0)\<close>: for each keyword the \<open>or\<close> of three
  \<open>ILIKE\<close> tests with the pattern \<open>%keyword%\<close>, taken alone when there is one keyword and
  under \<open>and\<close> when there are more.
\<close>

definition keyword_pattern :: "string \<Rightarrow> string" where
  "keyword_pattern keyword = ''%'' @ keyword @ ''%''"

definition keyword_condition :: "string \<Rightarrow> SQL" where
  "keyword_condition keyword =
     (let titleMatch = ILike_title (keyword_pattern keyword);
          summaryMatch = ILike_summary (keyword_pattern keyword);
          tagMatch = ILike_tags_string (keyword_pattern keyword)
      in SqlOr [titleMatch, summaryMatch, tagMatch])"

definition keyword_conditions :: "string list option \<Rightarrow> SQL list" where
  "keyword_conditions ks =
     (case ks of
        None \<Rightarrow> []
      | Some requested \<Rightarrow>
          if length requested > 0 then
            (let keywordConditions = map keyword_condition requested
             in case keywordConditions of
                  [] \<Rightarrow> []
                | [c] \<Rightarrow> [c]
                | _ \<Rightarrow> [SqlAnd keywordConditions])
          else [])"

definition conditions :: "'n SearchCodeCheckpointsInput \<Rightarrow> SQL list" where
  "conditions input =
     language_conditions (s_programming_language input) @
     tag_conditions (s_tags input) @
     keyword_conditions (s_keywords input)"

text \<open>
  \<open>conditions.length > 0 ? (conditions.length === 1 ? where(conditions[0]) :
  where(and(...conditions))) : baseQuery\<close>.
\<close>

definition where_clause :: "SQL list \<Rightarrow> SQL option" where
  "where_clause cs = (case cs of [] \<Rightarrow> None | [c] \<Rightarrow> Some c | _ \<Rightarrow> Some (SqlAnd cs))"

definition select_where :: "SQL option \<Rightarrow> 'n CodeCheckpoint list \<Rightarrow> 'n CodeCheckpoint list" where
  "select_where w rs = (case w of None \<Rightarrow> rs | Some c \<Rightarrow> filter (eval_sql c) rs)"

text \<open>The rows the search is about: those that pass the \<open>WHERE\<close> clause of both queries.\<close>

definition matching :: "'n SearchCodeCheckpointsInput \<Rightarrow> 'n CodeCheckpoint \<Rightarrow> bool" where
  "matching input r = (case where_clause (conditions input) of None \<Rightarrow> True | Some c \<Rightarrow> eval_sql c r)"

section \<open>The order of the search query\<close>

text \<open>
  The similarity expression of the \<open>ORDER BY\<close> clause:
  \<open>SELECT COALESCE(SUM(e.val * v.val), 0) FROM unnest(embedding) WITH ORDINALITY e(val, ord)
  JOIN unnest(ARRAY[...]::real[]) WITH ORDINALITY v(val, ord) ON e.ord = v.ord\<close>.
  \<open>SUM\<close> over no row is \<open>NULL\<close> (\<open>None\<close>); over some rows it adds them up from the first.
\<close>

definition unnest_with_ordinality :: "'a list \<Rightarrow> ('a \<times> nat) list" where
  "unnest_with_ordinality xs = zip xs [1..<Suc (length xs)]"

definition join_on_ord :: "('a \<times> nat) list \<Rightarrow> ('b \<times> nat) list \<Rightarrow> ('a \<times> 'b) list" where
  "join_on_ord es vs =
     concat (map (\<lambda>(e_val, e_ord).
       map (\<lambda>(v_val, v_ord). (e_val, v_val)) (filter (\<lambda>(v_val, v_ord). e_ord = v_ord) vs)) es)"

definition sql_sum :: "'n::plus list \<Rightarrow> 'n option" where
  "sql_sum xs = (case xs of [] \<Rightarrow> None | x # rest \<Rightarrow> Some (foldl (+) x rest))"

definition coalesce :: "'a option \<Rightarrow> 'a \<Rightarrow> 'a" where
  "coalesce v d = (case v of None \<Rightarrow> d | Some x \<Rightarrow> x)"

definition similarity :: "'n::{zero,plus,times} list \<Rightarrow> 'n list \<Rightarrow> 'n" where
  "similarity stored query =
     coalesce
       (sql_sum (map (\<lambda>(e_val, v_val). e_val * v_val)
          (join_on_ord (unnest_with_ordinality stored) (unnest_with_ordinality query))))
       0"

text \<open>
  \<open>ORDER BY key DESC\<close>: the rows by descending key. Rows of equal key stay in the order in
  which they came (the query names no second key).
\<close>

fun insert_desc :: "('r \<Rightarrow> 'k::linorder) \<Rightarrow> 'r \<Rightarrow> 'r list \<Rightarrow> 'r list" where
  "insert_desc key x [] = [x]"
| "insert_desc key x (y # ys) =
     (if key y \<le> key x then x # y # ys else y # insert_desc key x ys)"

definition order_by_desc :: "('r \<Rightarrow> 'k::linorder) \<Rightarrow> 'r list \<Rightarrow> 'r list" where
  "order_by_desc key rs = foldr (insert_desc key) rs []"

section \<open>The handlers (server/src/handlers)\<close>

text \<open>
  \<open>searchCodeCheckpoints\<close>: the page query (\<open>WHERE\<close>, \<open>ORDER BY\<close>, \<open>LIMIT\<close>, \<open>OFFSET\<close>) and the
  count query (the same \<open>WHERE\<close>), then \<open>total\<close> and \<open>has_more\<close>. \<open>queryWithOrder\<close> is the
  choice of the \<open>ORDER BY\<close> clause: by similarity when the input has a non-empty embedding,
  by \<open>created_at\<close> otherwise. \<open>limit\<close> and \<open>offset\<close> are natural numbers, as the schema
  leaves them; the tests call the handler with \<open>limit = 0\<close> as well. A failure of the
  database itself, which the handler logs and throws again, is not part of the model.
\<close>

definition queryWithOrder ::
  "'n::{zero,plus,times,linorder} SearchCodeCheckpointsInput \<Rightarrow> 'n CodeCheckpoint list \<Rightarrow>
     'n CodeCheckpoint list" where
  "queryWithOrder input queryWithWhere =
     (case s_embedding input of
        None \<Rightarrow> order_by_desc created_at queryWithWhere
      | Some query \<Rightarrow>
          if length query > 0
          then order_by_desc (\<lambda>r. similarity (embedding r) query) queryWithWhere
          else order_by_desc created_at queryWithWhere)"

definition searchCodeCheckpoints ::
  "'n::{zero,plus,times,linorder} Store \<Rightarrow> 'n SearchCodeCheckpointsInput \<Rightarrow> 'n SearchResults" where
  "searchCodeCheckpoints db input =
     (let w = where_clause (conditions input);
          queryWithWhere = select_where w (rows db);
          ordered = queryWithOrder input queryWithWhere;
          finalQuery = take (s_limit input) (drop (s_offset input) ordered);
          countResult = [length (select_where w (rows db))];
          total = (case countResult of [] \<Rightarrow> 0 | counted # _ \<Rightarrow> counted);
          hasMore = (s_offset input + s_limit input < total)
      in \<lparr>results = finalQuery, total' = total, has_more = hasMore\<rparr>)"

text \<open>
  What a handler throws. The id column is a 32-bit integer: PostgreSQL reads the parameter
  of \<open>id = $1\<close> as one, and raises an error for a number that is no integer or is out of the
  range; the handler logs the error and throws it again. \<open>set\<close> of drizzle throws when no
  key of its argument has a value.
\<close>

datatype handler_error = DatabaseError | NoValuesToSet

definition is_int4 :: "int \<Rightarrow> bool" where
  "is_int4 i = (- 2147483648 \<le> i \<and> i \<le> 2147483647)"

definition int4_param :: "js_number \<Rightarrow> handler_error + int" where
  "int4_param n =
     (case n of
        JInteger i \<Rightarrow> if is_int4 i then Inr i else Inl DatabaseError
      | JNonInteger \<Rightarrow> Inl DatabaseError)"

text \<open>\<open>getCodeCheckpointById\<close>: the first row with the id, or \<open>null\<close> (\<open>None\<close>).\<close>

definition getCodeCheckpointById ::
  "'n Store \<Rightarrow> js_number \<Rightarrow> handler_error + 'n CodeCheckpoint option" where
  "getCodeCheckpointById db n =
     (case int4_param n of
        Inl e \<Rightarrow> Inl e
      | Inr i \<Rightarrow>
          (let result = filter (\<lambda>r. id' r = i) (rows db)
           in case result of [] \<Rightarrow> Inr None | checkpoint # _ \<Rightarrow> Inr (Some checkpoint)))"

text \<open>
  \<open>createCodeCheckpoint\<close>: one \<open>INSERT ... RETURNING\<close>. The sequence gives the id and the
  clock of the database (\<open>now\<close>) gives \<open>created_at\<close>. (The file holds an earlier placeholder
  of the handler as well, which stores nothing; this is the handler the tests run.)
\<close>

definition createCodeCheckpoint ::
  "'n Store \<Rightarrow> timestamp \<Rightarrow> 'n CreateCodeCheckpointInput \<Rightarrow> 'n Store \<times> 'n CodeCheckpoint" where
  "createCodeCheckpoint db now input =
     (let checkpoint =
            \<lparr>id' = id_seq db + 1, title = c_title input, summary = c_summary input,
             code_snippet = c_code_snippet input, user_feedback = c_user_feedback input,
             programming_language = c_programming_language input, tags = c_tags input,
             embedding = c_embedding input, created_at = now\<rparr>
      in (db\<lparr>rows := rows db @ [checkpoint], id_seq := id_seq db + 1\<rparr>, checkpoint))"

text \<open>
  \<open>updateCodeCheckpoint\<close>. \<open>object_keys\<close> is \<open>Object.keys(updateFields)\<close>: the keys the input
  has besides \<open>id\<close>, those with the value \<open>undefined\<close> too. \<open>set_fields\<close> is
  \<open>.set(updateFields)\<close>: the keys that have a value overwrite their columns, and
  \<open>values_to_set\<close> are those keys; drizzle throws when there is none, before any query is
  sent. PostgreSQL writes an updated row as a new version of the row, which a scan meets
  after the rows that the statement left alone; \<open>update_returning\<close> gives the new table
  and the rows of \<open>RETURNING\<close>.
\<close>

definition key_if_present :: "string \<Rightarrow> 'a field \<Rightarrow> string list" where
  "key_if_present k f = (case f of Absent \<Rightarrow> [] | Undefined \<Rightarrow> [k] | Present _ \<Rightarrow> [k])"

definition key_if_valued :: "string \<Rightarrow> 'a field \<Rightarrow> string list" where
  "key_if_valued k f = (case f of Absent \<Rightarrow> [] | Undefined \<Rightarrow> [] | Present _ \<Rightarrow> [k])"

definition object_keys :: "'n UpdateCodeCheckpointInput \<Rightarrow> string list" where
  "object_keys u =
     key_if_present ''title'' (u_title u) @ key_if_present ''summary'' (u_summary u) @
     key_if_present ''code_snippet'' (u_code_snippet u) @
     key_if_present ''user_feedback'' (u_user_feedback u) @
     key_if_present ''programming_language'' (u_programming_language u) @
     key_if_present ''tags'' (u_tags u) @ key_if_present ''embedding'' (u_embedding u)"

definition values_to_set :: "'n UpdateCodeCheckpointInput \<Rightarrow> string list" where
  "values_to_set u =
     key_if_valued ''title'' (u_title u) @ key_if_valued ''summary'' (u_summary u) @
     key_if_valued ''code_snippet'' (u_code_snippet u) @
     key_if_valued ''user_feedback'' (u_user_feedback u) @
     key_if_valued ''programming_language'' (u_programming_language u) @
     key_if_valued ''tags'' (u_tags u) @ key_if_valued ''embedding'' (u_embedding u)"

definition set_field :: "'a field \<Rightarrow> 'a \<Rightarrow> 'a" where
  "set_field f column = (case f of Absent \<Rightarrow> column | Undefined \<Rightarrow> column | Present v \<Rightarrow> v)"

definition set_fields :: "'n UpdateCodeCheckpointInput \<Rightarrow> 'n CodeCheckpoint \<Rightarrow> 'n CodeCheckpoint" where
  "set_fields u r =
     r\<lparr>title := set_field (u_title u) (title r),
       summary := set_field (u_summary u) (summary r),
       code_snippet := set_field (u_code_snippet u) (code_snippet r),
       user_feedback := set_field (u_user_feedback u) (user_feedback r),
       programming_language := set_field (u_programming_language u) (programming_language r),
       tags := set_field (u_tags u) (tags r),
       embedding := set_field (u_embedding u) (embedding r)\<rparr>"

definition update_returning ::
  "('r \<Rightarrow> 'r) \<Rightarrow> ('r \<Rightarrow> bool) \<Rightarrow> 'r list \<Rightarrow> 'r list \<times> 'r list" where
  "update_returning f w rs =
     (let updated = map f (filter w rs)
      in (filter (\<lambda>r. \<not> w r) rs @ updated, updated))"

definition updateCodeCheckpoint ::
  "'n Store \<Rightarrow> 'n UpdateCodeCheckpointInput \<Rightarrow>
     'n Store \<times> (handler_error + 'n CodeCheckpoint option)" where
  "updateCodeCheckpoint db input =
     (if length (object_keys input) = 0 then
        (case int4_param (u_id input) of
           Inl e \<Rightarrow> (db, Inl e)
         | Inr i \<Rightarrow>
             (let existingRecord = filter (\<lambda>r. id' r = i) (rows db)
              in case existingRecord of
                   [] \<Rightarrow> (db, Inr None)
                 | existing # _ \<Rightarrow> (db, Inr (Some existing))))
      else if values_to_set input = [] then (db, Inl NoValuesToSet)
      else
        (case int4_param (u_id input) of
           Inl e \<Rightarrow> (db, Inl e)
         | Inr i \<Rightarrow>
             (let (table, result) =
                    update_returning (set_fields input) (\<lambda>r. id' r = i) (rows db)
              in case result of
                   [] \<Rightarrow> (db\<lparr>rows := table\<rparr>, Inr None)
                 | updated # _ \<Rightarrow> (db\<lparr>rows := table\<rparr>, Inr (Some updated)))))"

text \<open>
  \<open>deleteCodeCheckpoint\<close>: one \<open>DELETE\<close>; \<open>rowCount\<close> is the number of rows it removed, and
  the handler returns \<open>(result.rowCount ?? 0) > 0\<close>.
\<close>

definition delete_where :: "('r \<Rightarrow> bool) \<Rightarrow> 'r list \<Rightarrow> 'r list \<times> nat option" where
  "delete_where w rs = (filter (\<lambda>r. \<not> w r) rs, Some (length (filter w rs)))"

definition deleteCodeCheckpoint :: "'n Store \<Rightarrow> js_number \<Rightarrow> 'n Store \<times> (handler_error + bool)" where
  "deleteCodeCheckpoint db n =
     (case int4_param n of
        Inl e \<Rightarrow> (db, Inl e)
      | Inr i \<Rightarrow>
          (let (table, rowCount) = delete_where (\<lambda>r. id' r = i) (rows db)
           in (db\<lparr>rows := table\<rparr>, Inr ((case rowCount of None \<Rightarrow> 0 | Some k \<Rightarrow> k) > 0))))"

section \<open>The procedures (server/src/index.ts)\<close>

text \<open>
  A procedure parses its input with the schema and calls the handler with what the schema
  gives back; when the schema finds an issue the handler does not run.
\<close>

datatype 'a rpc_result = BadRequest "ZodIssue list" | Ok 'a

definition createCodeCheckpoint_procedure ::
  "'n Store \<Rightarrow> timestamp \<Rightarrow> 'n RawCreateCodeCheckpointInput \<Rightarrow>
     'n Store \<times> 'n CodeCheckpoint rpc_result" where
  "createCodeCheckpoint_procedure db now raw =
     (case createCodeCheckpointInputSchema raw of
        Inl issues \<Rightarrow> (db, BadRequest issues)
      | Inr input \<Rightarrow> (let (db', checkpoint) = createCodeCheckpoint db now input in (db', Ok checkpoint)))"

definition searchCodeCheckpoints_procedure ::
  "'n::{zero,plus,times,linorder} Store \<Rightarrow> 'n RawSearchCodeCheckpointsInput \<Rightarrow>
     'n SearchResults rpc_result" where
  "searchCodeCheckpoints_procedure db raw =
     (case searchCodeCheckpointsInputSchema raw of
        Inl issues \<Rightarrow> BadRequest issues
      | Inr input \<Rightarrow> Ok (searchCodeCheckpoints db input))"

section \<open>The invariant of the table\<close>

text \<open>
  \<open>id\<close> is the primary key: no two rows share an id, and the sequence has handed out every
  id in the table.
\<close>

definition store_ok :: "'n Store \<Rightarrow> bool" where
  "store_ok db = (distinct (map id' (rows db)) \<and> list_all (\<lambda>r. id' r \<le> id_seq db) (rows db))"

section \<open>Example data\<close>

text \<open>
  A row and a search input with short fields and integer embeddings, for the concrete
  instances of the theorems below.
\<close>

definition example_row ::
  "int \<Rightarrow> string \<Rightarrow> string \<Rightarrow> string list \<Rightarrow> int list \<Rightarrow> timestamp \<Rightarrow> int CodeCheckpoint" where
  "example_row i t l tg e ts =
     \<lparr>id' = i, title = t, summary = ''notes'', code_snippet = ''x = 1'', user_feedback = ''ok'',
      programming_language = l, tags = tg, embedding = e, created_at = ts\<rparr>"

definition example_search :: "nat \<Rightarrow> nat \<Rightarrow> int SearchCodeCheckpointsInput" where
  "example_search limit offset =
     \<lparr>s_query = None, s_keywords = None, s_programming_language = None, s_tags = None,
      s_embedding = None, s_limit = limit, s_offset = offset\<rparr>"

definition example_store :: "int Store" where
  "example_store =
     \<lparr>rows = [example_row 1 ''React Hook'' ''TypeScript'' [''react'', ''hooks''] [1, 2, 3] 100,
              example_row 2 ''Python Data'' ''Python'' [''python'', ''pandas''] [9, 8, 7] 200,
              example_row 3 ''Array Methods'' ''JavaScript'' [''javascript'', ''arrays''] [2, 4] 300,
              example_row 4 ''SQL Query'' ''SQL'' [''sql''] [] 400],
      id_seq = 4\<rparr>"

section \<open>Lemmas: the \<open>WHERE\<close> clause\<close>

text \<open>
Both queries of the search filter the table by \<open>matching\<close>, and a row matches when
it passes every condition the handler has built.
\<close>

lemma select_where_matching:
  "select_where (where_clause (conditions input)) rs = filter (matching input) rs"
proof -
  have "matching input = (\<lambda>r. case where_clause (conditions input) of None \<Rightarrow> True | Some c \<Rightarrow> eval_sql c r)"
    by (simp add: fun_eq_iff matching_def)
  then show ?thesis
    by (cases "where_clause (conditions input)") (simp_all add: select_where_def)
qed

lemma matching_iff: "matching input r \<longleftrightarrow> (\<forall>c \<in> set (conditions input). eval_sql c r)"
  by (simp add: matching_def where_clause_def split: list.splits)

lemma matching_page: "matching (input\<lparr>s_limit := l, s_offset := k\<rparr>) r = matching input r"
  by (simp add: matching_def conditions_def)

lemma no_filters_matching:
  assumes "s_programming_language input = None" "s_tags input = None" "s_keywords input = None"
  shows "matching input r"
  using assms
  by (simp add: matching_def conditions_def language_conditions_def tag_conditions_def
      keyword_conditions_def where_clause_def)

lemma eval_tag_conditions:
  assumes "ts \<noteq> []"
  shows "(\<forall>c \<in> set (tag_conditions (Some ts)). eval_sql c r) \<longleftrightarrow> (\<exists>t \<in> set ts. t \<in> set (tags r))"
proof (cases ts)
  case Nil
  with assms show ?thesis by simp
next
  case (Cons t rest)
  then show ?thesis
    by (cases rest) (auto simp: tag_conditions_def)
qed

lemma eval_keyword_conditions:
  assumes "ks \<noteq> []"
  shows "(\<forall>c \<in> set (keyword_conditions (Some ks)). eval_sql c r) \<longleftrightarrow>
           (\<forall>k \<in> set ks. eval_sql (keyword_condition k) r)"
proof (cases ks)
  case Nil
  with assms show ?thesis by simp
next
  case (Cons k rest)
  then show ?thesis
    by (cases rest) (auto simp: keyword_conditions_def)
qed

lemma eval_keyword_condition:
  "eval_sql (keyword_condition k) r \<longleftrightarrow>
     ilike (title r) (keyword_pattern k) \<or> ilike (summary r) (keyword_pattern k) \<or>
     ilike (array_to_string (tags r) '' '') (keyword_pattern k)"
  by (simp add: keyword_condition_def)

section \<open>Lemmas: \<open>LIKE\<close> patterns\<close>

text \<open>
A pattern \<open>%k%\<close> whose \<open>k\<close> has no \<open>%\<close>, no \<open>_\<close> and no backslash matches the texts
that contain \<open>k\<close>.
\<close>

lemma like_literal:
  assumes "set kw \<inter> {CHR ''%'', CHR ''_'', CHR 0x5C} = {}"
  shows "like t (kw @ rest) \<longleftrightarrow> (\<exists>t'. t = kw @ t' \<and> like t' rest)"
  using assms
proof (induction kw arbitrary: t)
  case Nil
  show ?case by simp
next
  case (Cons k ks)
  then have k: "k \<noteq> CHR ''%''" "k \<noteq> CHR ''_''" "k \<noteq> CHR 0x5C"
    and ks: "set ks \<inter> {CHR ''%'', CHR ''_'', CHR 0x5C} = {}"
    by auto
  show ?case
    using k Cons.IH [OF ks] by (cases t) auto
qed

lemma like_percent: "like t (CHR ''%'' # ps) \<longleftrightarrow> (\<exists>a b. t = a @ b \<and> like b ps)"
proof (induction t)
  case Nil
  show ?case by simp
next
  case (Cons c cs)
  have "like (c # cs) (CHR ''%'' # ps) \<longleftrightarrow> like (c # cs) ps \<or> like cs (CHR ''%'' # ps)"
    by simp
  also have "\<dots> \<longleftrightarrow> like (c # cs) ps \<or> (\<exists>a b. cs = a @ b \<and> like b ps)"
    by (simp only: Cons.IH)
  also have "\<dots> \<longleftrightarrow> (\<exists>a b. c # cs = a @ b \<and> like b ps)"
    by (auto simp: Cons_eq_append_conv)
  finally show ?case .
qed

lemma like_contains:
  assumes "set kw \<inter> {CHR ''%'', CHR ''_'', CHR 0x5C} = {}"
  shows "like t (''%'' @ kw @ ''%'') \<longleftrightarrow> sublist kw t"
proof -
  have any: "like s ''%''" for s
    by (simp only: like_percent) (rule exI [of _ s], simp)
  have "like t (''%'' @ kw @ ''%'') \<longleftrightarrow> (\<exists>a b. t = a @ b \<and> like b (kw @ ''%''))"
    using like_percent [of t "kw @ ''%''"] by simp
  also have "\<dots> \<longleftrightarrow> (\<exists>a b. t = a @ b \<and> (\<exists>t'. b = kw @ t' \<and> like t' ''%''))"
    by (simp only: like_literal [OF assms])
  also have "\<dots> \<longleftrightarrow> (\<exists>a t'. t = a @ kw @ t')"
    using any by auto
  finally show ?thesis by (simp add: sublist_def)
qed

lemma lower_wildcard:
  "lower c \<in> {CHR ''%'', CHR ''_'', CHR 0x5C} \<longleftrightarrow> c \<in> {CHR ''%'', CHR ''_'', CHR 0x5C}"
  by (auto simp: lower_def split: if_splits)

lemma ilike_contains:
  assumes "set kw \<inter> {CHR ''%'', CHR ''_'', CHR 0x5C} = {}"
  shows "ilike t (keyword_pattern kw) \<longleftrightarrow> sublist (map lower kw) (map lower t)"
proof -
  have "set (map lower kw) \<inter> {CHR ''%'', CHR ''_'', CHR 0x5C} = {}"
  proof (rule ccontr)
    assume "set (map lower kw) \<inter> {CHR ''%'', CHR ''_'', CHR 0x5C} \<noteq> {}"
    then obtain c where "c \<in> set kw" "lower c \<in> {CHR ''%'', CHR ''_'', CHR 0x5C}"
      by auto
    then have "c \<in> set kw" "c \<in> {CHR ''%'', CHR ''_'', CHR 0x5C}"
      by (simp_all only: lower_wildcard)
    with assms show False by blast
  qed
  from like_contains [OF this, of "map lower t"] show ?thesis
    by (simp add: ilike_def keyword_pattern_def lower_def)
qed

lemma keywords_filter_and_or:
  assumes "s_keywords input = Some ks" and "ks \<noteq> []"
  shows "matching input r \<longleftrightarrow>
           matching (input\<lparr>s_keywords := None\<rparr>) r \<and>
           (\<forall>k \<in> set ks.
              ilike (title r) (keyword_pattern k) \<or> ilike (summary r) (keyword_pattern k) \<or>
              ilike (array_to_string (tags r) '' '') (keyword_pattern k))"
proof -
  have "keyword_conditions None = []"
    by (simp add: keyword_conditions_def)
  then show ?thesis
    using eval_keyword_conditions [OF assms(2), of r] assms(1)
    by (auto simp: matching_iff conditions_def eval_keyword_condition)
qed

lemma keywords_filter_substring:
  assumes "s_keywords input = Some ks" and "ks \<noteq> []"
    and "\<forall>k \<in> set ks. set k \<inter> {CHR ''%'', CHR ''_'', CHR 0x5C} = {}"
  shows "matching input r \<longleftrightarrow>
           matching (input\<lparr>s_keywords := None\<rparr>) r \<and>
           (\<forall>k \<in> set ks.
              sublist (map lower k) (map lower (title r)) \<or>
              sublist (map lower k) (map lower (summary r)) \<or>
              sublist (map lower k) (map lower (array_to_string (tags r) '' '')))"
  using assms(3) by (simp add: keywords_filter_and_or [OF assms(1,2)] ilike_contains)

section \<open>Lemmas: \<open>ORDER BY\<close>\<close>

text \<open>
\<open>order_by_desc\<close> permutes its rows, sorts them by descending key, and keeps rows of
equal key in the order in which they came.
\<close>

lemma mset_insert_desc: "mset (insert_desc key x xs) = add_mset x (mset xs)"
  by (induction xs) simp_all

lemma mset_order_by_desc: "mset (order_by_desc key rs) = mset rs"
  by (induction rs) (simp_all add: order_by_desc_def mset_insert_desc)

lemma set_insert_desc: "set (insert_desc key x xs) = insert x (set xs)"
  by (induction xs) auto

lemma sorted_insert_desc:
  "sorted_wrt (\<lambda>a b. key b \<le> key a) xs \<Longrightarrow> sorted_wrt (\<lambda>a b. key b \<le> key a) (insert_desc key x xs)"
  by (induction xs) (auto simp: set_insert_desc)

lemma sorted_order_by_desc: "sorted_wrt (\<lambda>a b. key b \<le> key a) (order_by_desc key rs)"
  by (induction rs) (simp_all add: order_by_desc_def sorted_insert_desc)

lemma set_order_by_desc: "set (order_by_desc key rs) = set rs"
  using mset_order_by_desc [of key rs] by (metis set_mset_mset)

lemma length_order_by_desc: "length (order_by_desc key rs) = length rs"
  using mset_order_by_desc [of key rs] by (metis size_mset)

lemma distinct_ids_order_by_desc:
  "distinct (map f rs) \<Longrightarrow> distinct (map f (order_by_desc key rs))"
proof -
  assume d: "distinct (map f rs)"
  have "mset (map f (order_by_desc key rs)) = mset (map f rs)"
    by (simp add: mset_order_by_desc)
  then show ?thesis using d by (metis mset_eq_imp_distinct_iff)
qed

lemma filter_key_insert_desc:
  "filter (\<lambda>r. key r = t) (insert_desc key x xs) =
     (if key x = t then x # filter (\<lambda>r. key r = t) xs else filter (\<lambda>r. key r = t) xs)"
  by (induction xs) auto

lemma filter_key_order_by_desc:
  "filter (\<lambda>r. key r = t) (order_by_desc key rs) = filter (\<lambda>r. key r = t) rs"
  by (induction rs) (simp_all add: order_by_desc_def filter_key_insert_desc)

lemma sorted_page:
  "sorted_wrt (\<lambda>a b. key b \<le> key a) (take n (drop m (order_by_desc key rs)))"
  by (intro sorted_wrt_take sorted_wrt_drop sorted_order_by_desc)

lemma mset_queryWithOrder: "mset (queryWithOrder input rs) = mset rs"
  by (simp add: queryWithOrder_def mset_order_by_desc split: option.splits)

lemma page_ids_disjoint:
  assumes "distinct (map f xs)"
  shows "f ` set (take n xs) \<inter> f ` set (take m (drop n xs)) = {}"
proof -
  have "set (take n (map f xs)) \<inter> set (drop n (map f xs)) = {}"
    using assms by (rule set_take_disj_set_drop_if_distinct) simp
  moreover have "set (take m (drop n (map f xs))) \<subseteq> set (drop n (map f xs))"
    by (rule set_take_subset)
  ultimately have "set (take n (map f xs)) \<inter> set (take m (drop n (map f xs))) = {}"
    by blast
  then show ?thesis by (simp add: take_map drop_map)
qed

section \<open>Lemmas: the similarity expression\<close>

text \<open>
The join on the ordinals pairs the two vectors position by position, as \<open>zip\<close> does.
In a semiring the similarity is the usual sum over the common positions.
\<close>

lemma filter_ord_zip_upt:
  "filter (\<lambda>(v, j). i = j) (zip q [k..<k + length q]) =
     (if k \<le> i \<and> i < k + length q then [(q ! (i - k), i)] else [])"
proof (induction q arbitrary: k)
  case Nil
  then show ?case by simp
next
  case (Cons x xs)
  let ?P = "\<lambda>(v, j). i = j"
  have upt: "[k..<k + length (x # xs)] = k # [Suc k..<Suc k + length xs]"
    using upt_conv_Cons [of k "k + length (x # xs)"] by simp
  have "filter ?P (zip (x # xs) [k..<k + length (x # xs)]) =
          filter ?P ((x, k) # zip xs [Suc k..<Suc k + length xs])"
    by (simp only: upt zip_Cons_Cons)
  also have "\<dots> = (if i = k then [(x, k)] else []) @ filter ?P (zip xs [Suc k..<Suc k + length xs])"
    by simp
  also have "\<dots> = (if i = k then [(x, k)] else []) @
                    (if Suc k \<le> i \<and> i < Suc k + length xs then [(xs ! (i - Suc k), i)] else [])"
    by (simp only: Cons.IH)
  also have "\<dots> = (if k \<le> i \<and> i < k + length (x # xs) then [((x # xs) ! (i - k), i)] else [])"
    by (auto simp: nth_Cons' Suc_diff_le)
  finally show ?case .
qed

lemma filter_ord_unnest:
  "filter (\<lambda>(v, j). Suc k = j) (unnest_with_ordinality q) =
     (if k < length q then [(q ! k, Suc k)] else [])"
  using filter_ord_zip_upt [of "Suc k" q 1] by (auto simp: unnest_with_ordinality_def)

lemma join_on_ord_from:
  "join_on_ord (zip e [Suc k..<Suc k + length e]) (unnest_with_ordinality q) = zip e (drop k q)"
proof (induction e arbitrary: k)
  case Nil
  then show ?case by (simp add: join_on_ord_def)
next
  case (Cons x xs)
  have upt: "[Suc k..<Suc k + length (x # xs)] = Suc k # [Suc (Suc k)..<Suc (Suc k) + length xs]"
    using upt_conv_Cons [of "Suc k" "Suc k + length (x # xs)"] by simp
  have "join_on_ord (zip (x # xs) [Suc k..<Suc k + length (x # xs)]) (unnest_with_ordinality q) =
          join_on_ord ((x, Suc k) # zip xs [Suc (Suc k)..<Suc (Suc k) + length xs]) (unnest_with_ordinality q)"
    by (simp only: upt zip_Cons_Cons)
  also have "\<dots> = map (\<lambda>(v_val, v_ord). (x, v_val)) (filter (\<lambda>(v, j). Suc k = j) (unnest_with_ordinality q)) @
                    join_on_ord (zip xs [Suc (Suc k)..<Suc (Suc k) + length xs]) (unnest_with_ordinality q)"
    by (simp add: join_on_ord_def)
  also have "\<dots> = (if k < length q then [(x, q ! k)] else []) @ zip xs (drop (Suc k) q)"
    by (simp only: Cons.IH filter_ord_unnest) simp
  also have "\<dots> = zip (x # xs) (drop k q)"
  proof (cases "k < length q")
    case True
    then have "drop k q = q ! k # drop (Suc k) q"
      by (simp add: Cons_nth_drop_Suc)
    with True show ?thesis by simp
  next
    case False
    then show ?thesis by simp
  qed
  finally show ?case .
qed

lemma join_on_ord_unnest:
  "join_on_ord (unnest_with_ordinality e) (unnest_with_ordinality q) = zip e q"
  using join_on_ord_from [of e 0 q] by (simp add: unnest_with_ordinality_def)

lemma similarity_zip:
  "similarity e q = coalesce (sql_sum (map (\<lambda>(a, b). a * b) (zip e q))) 0"
  by (simp add: similarity_def join_on_ord_unnest)

lemma zip_positions:
  "zip e q = map (\<lambda>i. (e ! i, q ! i)) [0..<min (length e) (length q)]"
  by (rule nth_equalityI) simp_all

lemma similarity_positions:
  "similarity e q =
     (case map (\<lambda>i. e ! i * q ! i) [0..<min (length e) (length q)] of
        [] \<Rightarrow> 0
      | p # ps \<Rightarrow> foldl (+) p ps)"
proof -
  have "map (\<lambda>(a, b). a * b) (zip e q) = map (\<lambda>i. e ! i * q ! i) [0..<min (length e) (length q)]"
    by (subst zip_positions) (simp add: comp_def)
  then show ?thesis
    by (simp add: similarity_zip sql_sum_def coalesce_def split: list.splits)
qed

lemma similarity_take_min:
  "similarity e q = similarity (take (min (length e) (length q)) e) (take (min (length e) (length q)) q)"
proof -
  have "zip (take (min (length e) (length q)) e) (take (min (length e) (length q)) q) = zip e q"
    by (simp add: take_zip [symmetric])
  then show ?thesis by (simp add: similarity_zip)
qed

lemma similarity_empty: "similarity [] q = 0" "similarity e [] = 0"
  by (simp_all add: similarity_zip sql_sum_def coalesce_def)

lemma similarity_sum:
  fixes e q :: "'a::semiring_0 list"
  shows "similarity e q = (\<Sum>i<min (length e) (length q). e ! i * q ! i)"
proof -
  have fl: "foldl (+) p ps = p + sum_list ps" for p :: 'a and ps
    by (induction ps arbitrary: p) (simp_all add: add.assoc)
  have "similarity e q = sum_list (map (\<lambda>i. e ! i * q ! i) [0..<min (length e) (length q)])"
    by (simp add: similarity_positions fl split: list.splits)
  also have "\<dots> = (\<Sum>i<min (length e) (length q). e ! i * q ! i)"
    by (simp add: sum_list_sum_nth atLeast0LessThan)
  finally show ?thesis .
qed

lemma similarity_example:
  "similarity [1, 2, 3] [4, 5 :: int] = 14 \<and> similarity [1, 2] [4, 5, 6 :: int] = 14 \<and>
   similarity [] [4, 5 :: int] = 0"
  by (simp add: similarity_zip sql_sum_def coalesce_def)

section \<open>Lemmas: the handlers\<close>

lemma search_returns:
  "searchCodeCheckpoints db input =
     \<lparr>results = take (s_limit input) (drop (s_offset input)
                  (queryWithOrder input (filter (matching input) (rows db)))),
      total' = length (filter (matching input) (rows db)),
      has_more = (s_offset input + s_limit input < length (filter (matching input) (rows db)))\<rparr>"
  by (simp add: searchCodeCheckpoints_def Let_def select_where_matching)

lemma filter_unique_id:
  "distinct (map f xs) \<Longrightarrow> x \<in> set xs \<Longrightarrow> filter (\<lambda>y. f y = f x) xs = [x]"
proof (induction xs)
  case Nil
  then show ?case by simp
next
  case (Cons y ys)
  show ?case
  proof (cases "y = x")
    case True
    with Cons.prems have "f x \<notin> f ` set ys" by simp
    then have "\<forall>z \<in> set ys. f z \<noteq> f x" by (metis imageI)
    then have "filter (\<lambda>z. f z = f x) ys = []" by (simp add: filter_empty_conv)
    with True show ?thesis by simp
  next
    case False
    with Cons.prems have "x \<in> set ys" "f y \<noteq> f x" by auto
    with Cons show ?thesis by simp
  qed
qed

lemma filter_no_id: "i \<notin> f ` set xs \<Longrightarrow> filter (\<lambda>y. f y = i) xs = []"
  by (auto simp: filter_empty_conv)

lemma filter_other_ids: "i \<notin> f ` set xs \<Longrightarrow> filter (\<lambda>y. f y \<noteq> i) xs = xs"
  by (auto simp: filter_id_conv)

lemma set_fields_id: "id' (set_fields u r) = id' r" "created_at (set_fields u r) = created_at r"
  by (simp_all add: set_fields_def)

lemma key_if_present_empty: "key_if_present k f = [] \<longleftrightarrow> f = Absent"
  by (cases f) (simp_all add: key_if_present_def)

lemma object_keys_empty:
  "object_keys u = [] \<longleftrightarrow>
     u_title u = Absent \<and> u_summary u = Absent \<and> u_code_snippet u = Absent \<and>
     u_user_feedback u = Absent \<and> u_programming_language u = Absent \<and> u_tags u = Absent \<and>
     u_embedding u = Absent"
  by (simp add: object_keys_def key_if_present_empty)

lemma set_fields_none: "object_keys u = [] \<Longrightarrow> set_fields u r = r"
  by (simp add: object_keys_empty set_fields_def set_field_def)

lemma int4_param_ok: "is_int4 i \<Longrightarrow> int4_param (JInteger i) = Inr i"
  by (simp add: int4_param_def)

lemma int4_param_bad:
  "\<not> is_int4 i \<Longrightarrow> int4_param (JInteger i) = Inl DatabaseError"
  "int4_param JNonInteger = Inl DatabaseError"
  by (simp_all add: int4_param_def)

lemma update_known:
  assumes "distinct (map id' (rows db))" and "r \<in> set (rows db)"
    and "u_id input = JInteger (id' r)" and "is_int4 (id' r)"
    and "object_keys input = [] \<or> values_to_set input \<noteq> []"
  shows "snd (updateCodeCheckpoint db input) = Inr (Some (set_fields input r))"
    and "getCodeCheckpointById (fst (updateCodeCheckpoint db input)) (JInteger (id' r)) =
         Inr (Some (set_fields input r))"
    and "filter (\<lambda>x. id' x \<noteq> id' r) (rows (fst (updateCodeCheckpoint db input))) =
         filter (\<lambda>x. id' x \<noteq> id' r) (rows db)"
    and "object_keys input = [] \<Longrightarrow> fst (updateCodeCheckpoint db input) = db"
proof -
  have one: "filter (\<lambda>x. id' x = id' r) (rows db) = [r]"
    using assms(1,2) by (rule filter_unique_id)
  note p = int4_param_ok [OF assms(4)]
  show "snd (updateCodeCheckpoint db input) = Inr (Some (set_fields input r))"
    using assms(3,5) one p
    by (auto simp: updateCodeCheckpoint_def update_returning_def set_fields_none Let_def)
  show "getCodeCheckpointById (fst (updateCodeCheckpoint db input)) (JInteger (id' r)) =
         Inr (Some (set_fields input r))"
    using assms(3,5) one p
    by (auto simp: updateCodeCheckpoint_def update_returning_def set_fields_none
        getCodeCheckpointById_def set_fields_id Let_def)
  show "filter (\<lambda>x. id' x \<noteq> id' r) (rows (fst (updateCodeCheckpoint db input))) =
         filter (\<lambda>x. id' x \<noteq> id' r) (rows db)"
    using assms(3,5) one p
    by (auto simp: updateCodeCheckpoint_def update_returning_def set_fields_id Let_def)
  show "object_keys input = [] \<Longrightarrow> fst (updateCodeCheckpoint db input) = db"
    using assms(3) one p by (simp add: updateCodeCheckpoint_def)
qed

lemma update_unknown:
  assumes "u_id input = JInteger i" and "is_int4 i" and "i \<notin> id' ` set (rows db)"
    and "object_keys input = [] \<or> values_to_set input \<noteq> []"
  shows "updateCodeCheckpoint db input = (db, Inr None)"
  using filter_no_id [OF assms(3)] filter_other_ids [OF assms(3)] assms(1,4)
    int4_param_ok [OF assms(2)]
  by (auto simp: updateCodeCheckpoint_def update_returning_def Let_def)

lemma update_bad_id:
  assumes "int4_param (u_id input) = Inl e"
    and "object_keys input = [] \<or> values_to_set input \<noteq> []"
  shows "updateCodeCheckpoint db input = (db, Inl e)"
  using assms by (auto simp: updateCodeCheckpoint_def)

text \<open>
  An input whose keys all have the value \<open>undefined\<close> is not taken for an input without
  keys: the handler goes on to \<open>set\<close>, which throws.
\<close>

lemma update_only_undefined:
  assumes "object_keys input \<noteq> []" and "values_to_set input = []"
  shows "updateCodeCheckpoint db input = (db, Inl NoValuesToSet)"
  using assms by (simp add: updateCodeCheckpoint_def)

lemma update_only_undefined_example:
  "updateCodeCheckpoint example_store
     \<lparr>u_id = JInteger 2, u_title = Undefined, u_summary = Absent, u_code_snippet = Absent,
      u_user_feedback = Absent, u_programming_language = Absent, u_tags = Absent,
      u_embedding = Absent\<rparr> =
   (example_store, Inl NoValuesToSet)"
  by (rule update_only_undefined)
    (simp_all add: object_keys_def values_to_set_def key_if_present_def key_if_valued_def)

text \<open>The handlers keep the invariant of the table, from the empty table on.\<close>

lemma store_ok_empty: "store_ok \<lparr>rows = [], id_seq = 0\<rparr>"
  by (simp add: store_ok_def)

lemma store_ok_create: "store_ok db \<Longrightarrow> store_ok (fst (createCodeCheckpoint db now input))"
  by (fastforce simp: store_ok_def createCodeCheckpoint_def Let_def list_all_iff)

lemma fst_case_list: "fst (case xs of [] \<Rightarrow> (a, b) | y # ys \<Rightarrow> (a, c y)) = a"
  by (cases xs) simp_all

lemma id_set_fields_comp: "id' \<circ> set_fields u = id'"
  by (simp add: fun_eq_iff set_fields_id)

lemma store_ok_update: "store_ok db \<Longrightarrow> store_ok (fst (updateCodeCheckpoint db input))"
proof -
  assume ok: "store_ok db"
  define t where
    "t i = filter (\<lambda>r. id' r \<noteq> i) (rows db) @ map (set_fields input) (filter (\<lambda>r. id' r = i) (rows db))"
    for i
  have d: "distinct (map id' (t i))" for i
    using ok by (auto simp: t_def store_ok_def id_set_fields_comp set_fields_id distinct_map_filter)
  have b: "list_all (\<lambda>r. id' r \<le> id_seq db) (t i)" for i
    using ok by (auto simp: t_def store_ok_def list_all_iff set_fields_id)
  have "fst (updateCodeCheckpoint db input) = db \<or>
        (\<exists>i. fst (updateCodeCheckpoint db input) = db\<lparr>rows := t i\<rparr>)"
  proof (cases "int4_param (u_id input)")
    case (Inl e)
    then show ?thesis
      by (simp add: updateCodeCheckpoint_def fst_case_list)
  next
    case (Inr i)
    then have "fst (updateCodeCheckpoint db input) = db \<or>
               fst (updateCodeCheckpoint db input) = db\<lparr>rows := t i\<rparr>"
      by (simp add: t_def updateCodeCheckpoint_def update_returning_def Let_def fst_case_list)
    then show ?thesis by blast
  qed
  then show ?thesis
  proof (elim disjE exE)
    assume "fst (updateCodeCheckpoint db input) = db"
    with ok show ?thesis by simp
  next
    fix i
    assume e: "fst (updateCodeCheckpoint db input) = db\<lparr>rows := t i\<rparr>"
    show ?thesis
      unfolding e store_ok_def using d [of i] b [of i] by simp
  qed
qed

lemma store_ok_delete: "store_ok db \<Longrightarrow> store_ok (fst (deleteCodeCheckpoint db n))"
  by (auto simp: store_ok_def deleteCodeCheckpoint_def delete_where_def list_all_iff
      distinct_map_filter split: sum.splits)

section \<open>Lemmas: the create schema\<close>

lemma z_string_min1_ok: "z_string_min1 p msg v = [] \<longleftrightarrow> (\<exists>s. v = Some s \<and> s \<noteq> [])"
  by (cases v) (simp_all add: z_string_min1_def required_def)

lemma required_ok: "required p v = [] \<longleftrightarrow> (\<exists>x. v = Some x)"
  by (cases v) (simp_all add: required_def)

lemma create_issues_ok:
  "create_issues raw = [] \<longleftrightarrow>
     (\<exists>t s c f l e. rc_title raw = Some t \<and> t \<noteq> [] \<and> rc_summary raw = Some s \<and> s \<noteq> [] \<and>
        rc_code_snippet raw = Some c \<and> c \<noteq> [] \<and> rc_user_feedback raw = Some f \<and> f \<noteq> [] \<and>
        rc_programming_language raw = Some l \<and> l \<noteq> [] \<and> rc_embedding raw = Some e)"
  by (simp add: create_issues_def z_string_min1_ok required_ok) blast

lemma schema_rejects:
  "create_issues raw \<noteq> [] \<Longrightarrow> createCodeCheckpointInputSchema raw = Inl (create_issues raw)"
  by (simp add: createCodeCheckpointInputSchema_def split: option.splits)

lemma schema_accepts:
  assumes "create_issues raw = []"
  shows "\<exists>t s c f l e. rc_title raw = Some t \<and> rc_summary raw = Some s \<and>
           rc_code_snippet raw = Some c \<and> rc_user_feedback raw = Some f \<and>
           rc_programming_language raw = Some l \<and> rc_embedding raw = Some e \<and>
           createCodeCheckpointInputSchema raw =
             Inr \<lparr>c_title = t, c_summary = s, c_code_snippet = c, c_user_feedback = f,
                  c_programming_language = l,
                  c_tags = (case rc_tags raw of None \<Rightarrow> [] | Some ts \<Rightarrow> ts),
                  c_embedding = e\<rparr>"
proof -
  from assms obtain t s c f l e where
    "rc_title raw = Some t" "rc_summary raw = Some s" "rc_code_snippet raw = Some c"
    "rc_user_feedback raw = Some f" "rc_programming_language raw = Some l" "rc_embedding raw = Some e"
    unfolding create_issues_ok by blast
  with assms show ?thesis
    by (simp add: createCodeCheckpointInputSchema_def)
qed

section \<open>Search with limit 0\<close>

text \<open>
  C1. The search handler does not refuse \<open>limit = 0\<close>: it returns no row, \<open>total\<close> is the
  number of rows that pass the filters, and \<open>has_more\<close> is \<open>offset < total\<close>, which is true
  at offset 0 whenever \<open>total\<close> exceeds 0. The search procedure parses its input with
  \<open>searchCodeCheckpointsInputSchema\<close> first, whose \<open>limit\<close> is \<open>positive()\<close>: it answers
  \<open>limit = 0\<close> with a validation failure on \<open>limit\<close> and the handler does not run.
\<close>

theorem search_limit_zero:
  "(s_limit input = 0 \<longrightarrow>
      searchCodeCheckpoints db input =
        \<lparr>results = [],
         total' = length (filter (matching input) (rows db)),
         has_more = (s_offset input < length (filter (matching input) (rows db)))\<rparr>) \<and>
   (rs_limit raw = Some 0 \<longrightarrow>
      (\<exists>issues. searchCodeCheckpoints_procedure db raw = BadRequest issues \<and>
         \<lparr>issue_code = too_small, issue_path = ''limit'', issue_message = None\<rparr> \<in> set issues))"
proof (intro conjI impI)
  assume "s_limit input = 0"
  then show "searchCodeCheckpoints db input =
        \<lparr>results = [],
         total' = length (filter (matching input) (rows db)),
         has_more = (s_offset input < length (filter (matching input) (rows db)))\<rparr>"
    by (simp add: search_returns)
next
  assume "rs_limit raw = Some 0"
  then show "\<exists>issues. searchCodeCheckpoints_procedure db raw = BadRequest issues \<and>
         \<lparr>issue_code = too_small, issue_path = ''limit'', issue_message = None\<rparr> \<in> set issues"
    by (simp add: searchCodeCheckpoints_procedure_def searchCodeCheckpointsInputSchema_def
        search_issues_def)
qed

theorem search_limit_zero_witness:
  "searchCodeCheckpoints example_store (example_search 0 0) =
     \<lparr>results = [],
      total' = length (filter (matching (example_search 0 0)) (rows example_store)),
      has_more = (s_offset (example_search 0 0) <
                  length (filter (matching (example_search 0 0)) (rows example_store)))\<rparr> \<and>
   (\<exists>issues. searchCodeCheckpoints_procedure example_store
        \<lparr>rs_query = None, rs_keywords = None, rs_programming_language = None, rs_tags = None,
         rs_embedding = None, rs_limit = Some 0, rs_offset = None\<rparr> = BadRequest issues \<and>
      \<lparr>issue_code = too_small, issue_path = ''limit'', issue_message = None\<rparr> \<in> set issues)"
proof -
  have h1: "s_limit (example_search 0 0) = 0"
    by (simp add: example_search_def)
  have h2: "rs_limit \<lparr>rs_query = None, rs_keywords = None, rs_programming_language = None, rs_tags = None,
         rs_embedding = None, rs_limit = Some 0, rs_offset = None\<rparr> = Some 0"
    by simp
  note t = search_limit_zero [of "example_search 0 0" example_store
      "\<lparr>rs_query = None, rs_keywords = None, rs_programming_language = None, rs_tags = None,
         rs_embedding = None, rs_limit = Some 0, rs_offset = None\<rparr>"]
  from conjunct1 [OF t, THEN mp, OF h1] conjunct2 [OF t, THEN mp, OF h2]
  show ?thesis by (rule conjI)
qed

text \<open>
  The claim as written (for any offset \<open>has_more\<close> is true whenever \<open>total\<close> exceeds 0, and
  \<open>limit = 0\<close> is not rejected) fails: on four rows at offset 4 the handler returns
  \<open>total = 4\<close> and \<open>has_more = false\<close>, and the procedure rejects \<open>limit = 0\<close>.
\<close>

theorem search_limit_zero_counterexample:
  "searchCodeCheckpoints example_store (example_search 0 4) =
     \<lparr>results = [], total' = 4, has_more = False\<rparr> \<and>
   searchCodeCheckpoints_procedure example_store
     \<lparr>rs_query = None, rs_keywords = None, rs_programming_language = None, rs_tags = None,
      rs_embedding = None, rs_limit = Some 0, rs_offset = Some 0\<rparr> =
     BadRequest [\<lparr>issue_code = too_small, issue_path = ''limit'', issue_message = None\<rparr>]"
  by (simp add: search_returns no_filters_matching example_search_def example_store_def
      searchCodeCheckpoints_procedure_def searchCodeCheckpointsInputSchema_def search_issues_def)

section \<open>Order by recency\<close>

text \<open>
  C2. When the input has no embedding, or an empty one, the results are by \<open>created_at\<close>
  descending: they are the page of the matching rows sorted by that key alone. The query
  names no second key, so rows of equal \<open>created_at\<close> come in the order in which the
  store holds them, whatever their ids.
\<close>

theorem search_recency_order:
  assumes "s_embedding input = None \<or> s_embedding input = Some []"
  shows "sorted_wrt (\<lambda>a b. created_at b \<le> created_at a) (results (searchCodeCheckpoints db input)) \<and>
         results (searchCodeCheckpoints db input) =
           take (s_limit input) (drop (s_offset input)
             (order_by_desc created_at (filter (matching input) (rows db)))) \<and>
         (\<forall>t. filter (\<lambda>r. created_at r = t)
                 (order_by_desc created_at (filter (matching input) (rows db))) =
               filter (\<lambda>r. created_at r = t) (filter (matching input) (rows db)))"
proof -
  have "queryWithOrder input rs = order_by_desc created_at rs" for rs
    using assms by (auto simp: queryWithOrder_def)
  then show ?thesis
    by (simp add: search_returns sorted_page filter_key_order_by_desc)
qed

theorem search_recency_order_witness:
  "sorted_wrt (\<lambda>a b. created_at b \<le> created_at a)
     (results (searchCodeCheckpoints example_store (example_search 20 0))) \<and>
   map id' (results (searchCodeCheckpoints example_store (example_search 20 0))) = [4, 3, 2, 1]"
proof -
  have h: "s_embedding (example_search 20 0) = None \<or> s_embedding (example_search 20 0) = Some []"
    by (simp add: example_search_def)
  have m: "filter (matching (example_search 20 0)) (rows example_store) = rows example_store"
    by (simp add: no_filters_matching example_search_def)
  note t = search_recency_order [OF h, of example_store]
  from t have 1: "sorted_wrt (\<lambda>a b. created_at b \<le> created_at a)
     (results (searchCodeCheckpoints example_store (example_search 20 0)))"
    by (rule conjunct1)
  from t have "results (searchCodeCheckpoints example_store (example_search 20 0)) =
           take (s_limit (example_search 20 0)) (drop (s_offset (example_search 20 0))
             (order_by_desc created_at (filter (matching (example_search 20 0)) (rows example_store))))"
    by (elim conjE)
  then have 2: "map id' (results (searchCodeCheckpoints example_store (example_search 20 0))) = [4, 3, 2, 1]"
    unfolding m
    by (simp add: example_search_def example_store_def example_row_def order_by_desc_def)
  from 1 2 show ?thesis by (rule conjI)
qed

text \<open>
  The claim as written (rows of equal \<open>created_at\<close> come by ascending id) fails: the store
  below holds two rows of the same \<open>created_at\<close>, and the search returns id 2 before id 1.
  The store is what two creations at the same clock value and an update of the first row
  leave behind. Both orders of the two rows are sorted by \<open>created_at\<close> descending: the
  \<open>ORDER BY\<close> clause does not tell them apart.
\<close>

theorem recency_ties_counterexample:
  "map (\<lambda>r. (id' r, created_at r))
     (results (searchCodeCheckpoints
        \<lparr>rows = [example_row 2 ''second'' ''SQL'' [] [] 100, example_row 1 ''first'' ''SQL'' [] [] 100],
         id_seq = 2\<rparr>
        (example_search 20 0))) =
   [(2, 100), (1, 100)]"
  by (simp add: search_returns no_filters_matching example_search_def example_row_def
      queryWithOrder_def order_by_desc_def)

lemma recency_ties_store_reached:
  "fst (updateCodeCheckpoint
         (fst (createCodeCheckpoint
                (fst (createCodeCheckpoint \<lparr>rows = [], id_seq = 0\<rparr> 100
                       \<lparr>c_title = ''draft'', c_summary = ''notes'', c_code_snippet = ''x = 1'',
                        c_user_feedback = ''ok'', c_programming_language = ''SQL'', c_tags = [],
                        c_embedding = []\<rparr>))
                100
                \<lparr>c_title = ''second'', c_summary = ''notes'', c_code_snippet = ''x = 1'',
                 c_user_feedback = ''ok'', c_programming_language = ''SQL'', c_tags = [],
                 c_embedding = []\<rparr>))
         \<lparr>u_id = JInteger 1, u_title = Present ''first'', u_summary = Absent,
          u_code_snippet = Absent, u_user_feedback = Absent, u_programming_language = Absent,
          u_tags = Absent, u_embedding = Absent\<rparr>) =
   \<lparr>rows = [example_row 2 ''second'' ''SQL'' [] [] 100, example_row 1 ''first'' ''SQL'' [] [] 100],
    id_seq = 2\<rparr>"
  by (simp add: createCodeCheckpoint_def updateCodeCheckpoint_def object_keys_def
      values_to_set_def key_if_present_def key_if_valued_def int4_param_def is_int4_def
      update_returning_def set_fields_def set_field_def example_row_def Let_def)

lemma recency_order_not_determined:
  "sorted_wrt (\<lambda>a b. created_at b \<le> created_at a)
     [example_row 1 ''first'' ''SQL'' [] [] 100, example_row 2 ''second'' ''SQL'' [] [] 100] \<and>
   sorted_wrt (\<lambda>a b. created_at b \<le> created_at a)
     [example_row 2 ''second'' ''SQL'' [] [] 100, example_row 1 ''first'' ''SQL'' [] [] 100] \<and>
   mset [example_row 1 ''first'' ''SQL'' [] [] 100, example_row 2 ''second'' ''SQL'' [] [] 100] =
   mset [example_row 2 ''second'' ''SQL'' [] [] 100, example_row 1 ''first'' ''SQL'' [] [] 100]"
  by (simp add: example_row_def)

section \<open>Validation of a new checkpoint\<close>

text \<open>
  C3. \<open>createCodeCheckpointInputSchema\<close> accepts an input exactly when its five text fields
  are present and non-empty and its embedding is present; the embedding may be any list, the
  empty one too, and \<open>tags\<close> may be empty or missing (then it is \<open>[]\<close>). A rejected input
  comes back as a non-empty list of issues and leaves the store as it was; an accepted
  input adds one row that carries the embedding and the tags of the input.
\<close>

theorem create_validation:
  "((\<exists>input. createCodeCheckpointInputSchema raw = Inr input) \<longleftrightarrow>
      (\<exists>t s c f l e. rc_title raw = Some t \<and> t \<noteq> [] \<and> rc_summary raw = Some s \<and> s \<noteq> [] \<and>
         rc_code_snippet raw = Some c \<and> c \<noteq> [] \<and> rc_user_feedback raw = Some f \<and> f \<noteq> [] \<and>
         rc_programming_language raw = Some l \<and> l \<noteq> [] \<and> rc_embedding raw = Some e)) \<and>
   (\<forall>issues. createCodeCheckpointInputSchema raw = Inl issues \<longrightarrow>
      issues \<noteq> [] \<and> createCodeCheckpoint_procedure db now raw = (db, BadRequest issues)) \<and>
   (\<forall>input. createCodeCheckpointInputSchema raw = Inr input \<longrightarrow>
      Some (c_embedding input) = rc_embedding raw \<and>
      c_tags input = (case rc_tags raw of None \<Rightarrow> [] | Some ts \<Rightarrow> ts) \<and>
      (\<exists>checkpoint.
         createCodeCheckpoint_procedure db now raw =
           (db\<lparr>rows := rows db @ [checkpoint], id_seq := id_seq db + 1\<rparr>, Ok checkpoint) \<and>
         embedding checkpoint = c_embedding input \<and> tags checkpoint = c_tags input))"
proof (intro conjI allI impI)
  show "(\<exists>input. createCodeCheckpointInputSchema raw = Inr input) \<longleftrightarrow>
      (\<exists>t s c f l e. rc_title raw = Some t \<and> t \<noteq> [] \<and> rc_summary raw = Some s \<and> s \<noteq> [] \<and>
         rc_code_snippet raw = Some c \<and> c \<noteq> [] \<and> rc_user_feedback raw = Some f \<and> f \<noteq> [] \<and>
         rc_programming_language raw = Some l \<and> l \<noteq> [] \<and> rc_embedding raw = Some e)"
  proof (cases "create_issues raw = []")
    case True
    with schema_accepts [OF True] show ?thesis
      unfolding create_issues_ok [symmetric] by auto
  next
    case False
    with schema_rejects [OF False] show ?thesis
      unfolding create_issues_ok [symmetric] by simp
  qed
next
  fix issues
  assume r: "createCodeCheckpointInputSchema raw = Inl issues"
  have ne: "create_issues raw \<noteq> []"
  proof
    assume "create_issues raw = []"
    from schema_accepts [OF this] r show False by auto
  qed
  with schema_rejects [OF ne] r show "issues \<noteq> []" by simp
  from r show "createCodeCheckpoint_procedure db now raw = (db, BadRequest issues)"
    by (simp add: createCodeCheckpoint_procedure_def)
next
  fix input
  assume a: "createCodeCheckpointInputSchema raw = Inr input"
  have ok: "create_issues raw = []"
  proof (rule ccontr)
    assume "create_issues raw \<noteq> []"
    from schema_rejects [OF this] a show False by simp
  qed
  from schema_accepts [OF ok] a show "Some (c_embedding input) = rc_embedding raw"
    by auto
  from schema_accepts [OF ok] a show "c_tags input = (case rc_tags raw of None \<Rightarrow> [] | Some ts \<Rightarrow> ts)"
    by auto
  from a show "\<exists>checkpoint.
         createCodeCheckpoint_procedure db now raw =
           (db\<lparr>rows := rows db @ [checkpoint], id_seq := id_seq db + 1\<rparr>, Ok checkpoint) \<and>
         embedding checkpoint = c_embedding input \<and> tags checkpoint = c_tags input"
    by (simp add: createCodeCheckpoint_procedure_def createCodeCheckpoint_def Let_def)
qed

theorem create_validation_witness:
  "(\<exists>input. createCodeCheckpointInputSchema
       \<lparr>rc_title = Some ''Minimal'', rc_summary = Some ''notes'', rc_code_snippet = Some ''x = 1'',
        rc_user_feedback = Some ''ok'', rc_programming_language = Some ''Python'',
        rc_tags = None, rc_embedding = Some [5 :: int]\<rparr> = Inr input) \<and>
   (\<exists>issues. issues \<noteq> [] \<and>
      createCodeCheckpoint_procedure example_store 500
        \<lparr>rc_title = Some '''', rc_summary = Some ''notes'', rc_code_snippet = Some ''x = 1'',
         rc_user_feedback = Some ''ok'', rc_programming_language = Some ''Python'',
         rc_tags = Some [], rc_embedding = Some [5]\<rparr> = (example_store, BadRequest issues))"
proof -
  let ?good = "\<lparr>rc_title = Some ''Minimal'', rc_summary = Some ''notes'', rc_code_snippet = Some ''x = 1'',
        rc_user_feedback = Some ''ok'', rc_programming_language = Some ''Python'',
        rc_tags = None, rc_embedding = Some [5 :: int]\<rparr>"
  let ?bad = "\<lparr>rc_title = Some '''', rc_summary = Some ''notes'', rc_code_snippet = Some ''x = 1'',
         rc_user_feedback = Some ''ok'', rc_programming_language = Some ''Python'',
         rc_tags = Some [], rc_embedding = Some [5 :: int]\<rparr>"
  have g: "\<exists>t s c f l e. rc_title ?good = Some t \<and> t \<noteq> [] \<and> rc_summary ?good = Some s \<and> s \<noteq> [] \<and>
         rc_code_snippet ?good = Some c \<and> c \<noteq> [] \<and> rc_user_feedback ?good = Some f \<and> f \<noteq> [] \<and>
         rc_programming_language ?good = Some l \<and> l \<noteq> [] \<and> rc_embedding ?good = Some e"
    by simp
  have b: "createCodeCheckpointInputSchema ?bad =
             Inl [\<lparr>issue_code = too_small, issue_path = ''title'', issue_message = Some ''Title is required''\<rparr>]"
    by (simp add: createCodeCheckpointInputSchema_def create_issues_def z_string_min1_def required_def)
  from create_validation [of ?good example_store 500] g
  have 1: "\<exists>input. createCodeCheckpointInputSchema ?good = Inr input"
    by (elim conjE) (rule iffD2)
  from create_validation [of ?bad example_store 500] b
  have 2: "\<exists>issues. issues \<noteq> [] \<and>
      createCodeCheckpoint_procedure example_store 500 ?bad = (example_store, BadRequest issues)"
    by (elim conjE allE [of _ "[\<lparr>issue_code = too_small, issue_path = ''title'', issue_message = Some ''Title is required''\<rparr>]"]) blast
  from 1 2 show ?thesis by (rule conjI)
qed

text \<open>
  The claim as written (an empty embedding is rejected before reaching storage) fails: the
  input below has the embedding \<open>[]\<close> and is stored.
\<close>

theorem create_validation_counterexample:
  "createCodeCheckpoint_procedure \<lparr>rows = [], id_seq = 0\<rparr> 100
     \<lparr>rc_title = Some ''Minimal'', rc_summary = Some ''notes'', rc_code_snippet = Some ''x = 1'',
      rc_user_feedback = Some ''ok'', rc_programming_language = Some ''Python'',
      rc_tags = None, rc_embedding = Some []\<rparr> =
   (\<lparr>rows = [example_row 1 ''Minimal'' ''Python'' [] [] 100], id_seq = 1\<rparr>,
    Ok (example_row 1 ''Minimal'' ''Python'' [] [] 100))"
  by (simp add: createCodeCheckpoint_procedure_def createCodeCheckpointInputSchema_def
      create_issues_def z_string_min1_def required_def createCodeCheckpoint_def example_row_def
      Let_def)

section \<open>The keyword filter\<close>

text \<open>
  C4. The handler puts each keyword between two \<open>%\<close> and hands it to \<open>ILIKE\<close> as it is.
  The filter is the conjunction over the keywords of the disjunction over title, summary and
  tag text (\<open>keywords_filter_and_or\<close>), and for keywords without \<open>%\<close>, \<open>_\<close> and
  backslash it is the case-insensitive substring test of the claim
  (\<open>keywords_filter_substring\<close>). A \<open>_\<close> in a keyword is a wildcard of the pattern,
  though: the keyword \<open>user_id\<close> selects the row titled \<open>user id\<close>, which contains the
  keyword in none of its three texts.
\<close>

theorem keyword_wildcard_divergence:
  "searchCodeCheckpoints
     \<lparr>rows = [example_row 1 ''user id'' ''SQL'' [''db''] [] 100], id_seq = 1\<rparr>
     ((example_search 20 0)\<lparr>s_keywords := Some [''user_id'']\<rparr>) =
     \<lparr>results = [example_row 1 ''user id'' ''SQL'' [''db''] [] 100], total' = 1, has_more = False\<rparr> \<and>
   \<not> sublist (map lower ''user_id'') (map lower (title (example_row 1 ''user id'' ''SQL'' [''db''] [] 100))) \<and>
   \<not> sublist (map lower ''user_id'') (map lower (summary (example_row 1 ''user id'' ''SQL'' [''db''] [] 100))) \<and>
   \<not> sublist (map lower ''user_id'')
       (map lower (array_to_string (tags (example_row 1 ''user id'' ''SQL'' [''db''] [] 100)) '' ''))"
proof (intro conjI)
  have m: "matching ((example_search 20 0)\<lparr>s_keywords := Some [''user_id'']\<rparr>)
             (example_row 1 ''user id'' ''SQL'' [''db''] [] 100)"
    by (simp add: matching_def conditions_def language_conditions_def tag_conditions_def
        keyword_conditions_def keyword_condition_def keyword_pattern_def where_clause_def
        example_search_def example_row_def ilike_def lower_def)
  show "searchCodeCheckpoints
     \<lparr>rows = [example_row 1 ''user id'' ''SQL'' [''db''] [] 100], id_seq = 1\<rparr>
     ((example_search 20 0)\<lparr>s_keywords := Some [''user_id'']\<rparr>) =
     \<lparr>results = [example_row 1 ''user id'' ''SQL'' [''db''] [] 100], total' = 1, has_more = False\<rparr>"
    using m by (simp add: search_returns example_search_def queryWithOrder_def order_by_desc_def)
qed (simp_all add: example_row_def lower_def sublist_Cons_right)

section \<open>The tag filter\<close>

lemma matching_tags:
  assumes "s_tags input = Some ts" and "ts \<noteq> []"
  shows "matching input r \<longleftrightarrow>
           matching (input\<lparr>s_tags := None\<rparr>) r \<and> (\<exists>t \<in> set ts. t \<in> set (tags r))"
proof -
  have "tag_conditions None = []"
    by (simp add: tag_conditions_def)
  then show ?thesis
    using eval_tag_conditions [OF assms(2), of r] assms(1)
    by (auto simp: matching_iff conditions_def)
qed

text \<open>A search with \<open>limit\<close> the size of the table and \<open>offset = 0\<close> returns every matching row.\<close>

lemma search_whole:
  "results (searchCodeCheckpoints db (input\<lparr>s_limit := length (rows db), s_offset := 0\<rparr>)) =
     queryWithOrder input (filter (matching input) (rows db))"
proof -
  have q: "queryWithOrder (input\<lparr>s_limit := length (rows db), s_offset := 0\<rparr>) rs = queryWithOrder input rs"
    for rs
    by (simp add: queryWithOrder_def)
  have "matching (input\<lparr>s_limit := length (rows db), s_offset := 0\<rparr>) = matching input"
    by (simp add: fun_eq_iff matching_page)
  then have m: "filter (matching (input\<lparr>s_limit := length (rows db), s_offset := 0\<rparr>)) (rows db) =
           filter (matching input) (rows db)"
    by simp
  have "length (queryWithOrder input (filter (matching input) (rows db))) \<le> length (rows db)"
    using mset_queryWithOrder [of input "filter (matching input) (rows db)"]
    by (metis length_filter_le size_mset)
  then show ?thesis
    by (simp add: search_returns q m)
qed

lemma set_search_whole:
  "set (results (searchCodeCheckpoints db (input\<lparr>s_limit := length (rows db), s_offset := 0\<rparr>))) =
     {r \<in> set (rows db). matching input r}"
proof -
  have "set (queryWithOrder input (filter (matching input) (rows db))) =
        set (filter (matching input) (rows db))"
    using mset_queryWithOrder [of input "filter (matching input) (rows db)"]
    by (metis set_mset_mset)
  then show ?thesis
    by (simp add: search_whole)
qed

lemma length_filter_permuted: "mset xs = mset ys \<Longrightarrow> length (filter P xs) = length (filter P ys)"
  by (metis mset_filter size_mset)

lemma set_page_subset:
  "set (results (searchCodeCheckpoints db input)) \<subseteq> {r \<in> set (rows db). matching input r}"
proof -
  have "set (results (searchCodeCheckpoints db input)) \<subseteq>
        set (queryWithOrder input (filter (matching input) (rows db)))"
    by (simp add: search_returns) (meson set_take_subset set_drop_subset subset_trans)
  also have "\<dots> = set (filter (matching input) (rows db))"
    using mset_queryWithOrder [of input "filter (matching input) (rows db)"]
    by (metis set_mset_mset)
  finally show ?thesis by simp
qed

text \<open>
  C5. For a search with a non-empty list of requested tags, the rows that \<open>total\<close> counts and
  that the pages are cut from are the rows of the table that pass the other filters and
  have one of the requested tags as an element of their tag list: the rows that the same
  search without the tag filter returns, narrowed to those that have one of the tags.
  With two tags they are the union of the rows of either tag.
\<close>

theorem search_tags_filter:
  assumes "s_tags input = Some ts" and "ts \<noteq> []"
  shows "total' (searchCodeCheckpoints db input) =
           length (filter (\<lambda>r. matching (input\<lparr>s_tags := None\<rparr>) r \<and>
                                 (\<exists>t \<in> set ts. t \<in> set (tags r))) (rows db)) \<and>
         total' (searchCodeCheckpoints db input) =
           length (filter (\<lambda>r. \<exists>t \<in> set ts. t \<in> set (tags r))
             (results (searchCodeCheckpoints db
                (input\<lparr>s_tags := None, s_limit := length (rows db), s_offset := 0\<rparr>)))) \<and>
         set (results (searchCodeCheckpoints db (input\<lparr>s_limit := length (rows db), s_offset := 0\<rparr>))) =
           {r \<in> set (rows db). matching (input\<lparr>s_tags := None\<rparr>) r \<and>
                                  (\<exists>t \<in> set ts. t \<in> set (tags r))} \<and>
         set (results (searchCodeCheckpoints db (input\<lparr>s_limit := length (rows db), s_offset := 0\<rparr>))) =
           {r \<in> set (results (searchCodeCheckpoints db
                  (input\<lparr>s_tags := None, s_limit := length (rows db), s_offset := 0\<rparr>))).
              \<exists>t \<in> set ts. t \<in> set (tags r)} \<and>
         set (results (searchCodeCheckpoints db input)) \<subseteq>
           {r \<in> set (rows db). matching (input\<lparr>s_tags := None\<rparr>) r \<and>
                                  (\<exists>t \<in> set ts. t \<in> set (tags r))}"
proof -
  let ?P = "\<lambda>r. \<exists>t \<in> set ts. t \<in> set (tags r)"
  let ?other = "input\<lparr>s_tags := None\<rparr>"
  have m: "matching input = (\<lambda>r. matching ?other r \<and> ?P r)"
    using matching_tags [OF assms] by (simp add: fun_eq_iff)
  have f: "filter (matching input) (rows db) = filter ?P (filter (matching ?other) (rows db))"
    by (simp add: m conj_commute)
  have 1: "total' (searchCodeCheckpoints db input) =
             length (filter (\<lambda>r. matching ?other r \<and> ?P r) (rows db))"
    by (simp add: search_returns m)
  have "mset (results (searchCodeCheckpoints db (?other\<lparr>s_limit := length (rows db), s_offset := 0\<rparr>))) =
        mset (filter (matching ?other) (rows db))"
    by (simp add: search_whole mset_queryWithOrder)
  then have "length (filter ?P (results (searchCodeCheckpoints db
               (?other\<lparr>s_limit := length (rows db), s_offset := 0\<rparr>)))) =
             length (filter ?P (filter (matching ?other) (rows db)))"
    by (rule length_filter_permuted)
  then have 2: "total' (searchCodeCheckpoints db input) =
             length (filter ?P (results (searchCodeCheckpoints db
               (input\<lparr>s_tags := None, s_limit := length (rows db), s_offset := 0\<rparr>))))"
    by (simp add: search_returns f)
  have 3: "set (results (searchCodeCheckpoints db (input\<lparr>s_limit := length (rows db), s_offset := 0\<rparr>))) =
             {r \<in> set (rows db). matching ?other r \<and> ?P r}"
    by (simp add: set_search_whole m)
  have 4: "set (results (searchCodeCheckpoints db (input\<lparr>s_limit := length (rows db), s_offset := 0\<rparr>))) =
             {r \<in> set (results (searchCodeCheckpoints db
                  (input\<lparr>s_tags := None, s_limit := length (rows db), s_offset := 0\<rparr>))). ?P r}"
    using set_search_whole [of db ?other] by (auto simp: 3)
  have 5: "set (results (searchCodeCheckpoints db input)) \<subseteq>
             {r \<in> set (rows db). matching ?other r \<and> ?P r}"
    using set_page_subset [of db input] by (simp add: m)
  from 1 2 3 4 5 show ?thesis by (intro conjI)
qed

theorem search_tags_filter_witness:
  "total' (searchCodeCheckpoints example_store
      ((example_search 4 0)\<lparr>s_tags := Some [''python'', ''sql'']\<rparr>)) = 2 \<and>
   id' ` set (results (searchCodeCheckpoints example_store
      ((example_search 4 0)\<lparr>s_tags := Some [''python'', ''sql''],
                             s_limit := length (rows example_store), s_offset := 0\<rparr>))) = {2, 4}"
proof -
  let ?input = "(example_search 4 0)\<lparr>s_tags := Some [''python'', ''sql'']\<rparr>"
  have h: "s_tags ?input = Some [''python'', ''sql'']" "[''python'', ''sql''] \<noteq> []"
    by simp_all
  note t = search_tags_filter [OF h, of example_store]
  from t have "total' (searchCodeCheckpoints example_store ?input) =
           length (filter (\<lambda>r. matching (?input\<lparr>s_tags := None\<rparr>) r \<and>
                                 (\<exists>t \<in> set [''python'', ''sql'']. t \<in> set (tags r))) (rows example_store))"
    by (elim conjE)
  also have "\<dots> = 2"
    by (simp add: no_filters_matching example_search_def example_store_def example_row_def)
  finally have 1: "total' (searchCodeCheckpoints example_store ?input) = 2" .
  from t have "set (results (searchCodeCheckpoints example_store
                 (?input\<lparr>s_limit := length (rows example_store), s_offset := 0\<rparr>))) =
           {r \<in> set (rows example_store). matching (?input\<lparr>s_tags := None\<rparr>) r \<and>
                                  (\<exists>t \<in> set [''python'', ''sql'']. t \<in> set (tags r))}"
    by (elim conjE)
  also have "\<dots> = set (filter (\<lambda>r. \<exists>t \<in> set [''python'', ''sql'']. t \<in> set (tags r)) (rows example_store))"
    by (simp add: no_filters_matching example_search_def)
  also have "\<dots> = {example_row 2 ''Python Data'' ''Python'' [''python'', ''pandas''] [9, 8, 7] 200,
                     example_row 4 ''SQL Query'' ''SQL'' [''sql''] [] 400}"
    by (simp add: example_store_def example_row_def)
  finally have 2: "id' ` set (results (searchCodeCheckpoints example_store
                 (?input\<lparr>s_limit := length (rows example_store), s_offset := 0\<rparr>))) = {2, 4}"
    by (simp add: example_row_def)
  from 1 2 show ?thesis by simp
qed

section \<open>Order by similarity\<close>

text \<open>
  C6. When the input has a non-empty embedding \<open>q\<close>, the results are the page of the
  matching rows sorted by descending similarity of the stored embedding and \<open>q\<close>, and
  the similarity is the sum, from the first position on, of the products of the elements
  at the same position (\<open>similarity_sum\<close> writes it as a sum over the positions when the
  arithmetic is that of a semiring).
\<close>

theorem search_similarity_order:
  assumes "s_embedding input = Some q" and "q \<noteq> []"
  shows "sorted_wrt (\<lambda>a b. similarity (embedding b) q \<le> similarity (embedding a) q)
           (results (searchCodeCheckpoints db input)) \<and>
         results (searchCodeCheckpoints db input) =
           take (s_limit input) (drop (s_offset input)
             (order_by_desc (\<lambda>r. similarity (embedding r) q) (filter (matching input) (rows db)))) \<and>
         (\<forall>e. similarity e q =
            (case map (\<lambda>i. e ! i * q ! i) [0..<min (length e) (length q)] of
               [] \<Rightarrow> 0
             | p # ps \<Rightarrow> foldl (+) p ps))"
proof -
  have "queryWithOrder input rs = order_by_desc (\<lambda>r. similarity (embedding r) q) rs" for rs
    using assms by (simp add: queryWithOrder_def)
  moreover have "\<forall>e. similarity e q =
            (case map (\<lambda>i. e ! i * q ! i) [0..<min (length e) (length q)] of
               [] \<Rightarrow> 0
             | p # ps \<Rightarrow> foldl (+) p ps)"
    using similarity_positions by blast
  ultimately show ?thesis
    using sorted_page [of "\<lambda>r. similarity (embedding r) q"]
    by (simp add: search_returns)
qed

theorem search_similarity_order_witness:
  "sorted_wrt (\<lambda>a b. similarity (embedding b) [1, 1] \<le> similarity (embedding a) [1, 1])
     (results (searchCodeCheckpoints example_store ((example_search 20 0)\<lparr>s_embedding := Some [1, 1]\<rparr>))) \<and>
   map (\<lambda>r. (id' r, similarity (embedding r) [1, 1]))
     (results (searchCodeCheckpoints example_store ((example_search 20 0)\<lparr>s_embedding := Some [1, 1]\<rparr>))) =
   [(2, 17), (3, 6), (1, 3), (4, 0)]"
proof -
  let ?input = "(example_search 20 0)\<lparr>s_embedding := Some [1, 1]\<rparr>"
  have h: "s_embedding ?input = Some [1, 1]" "[1, 1 :: int] \<noteq> []"
    by simp_all
  have m: "filter (matching ?input) (rows example_store) = rows example_store"
    by (simp add: no_filters_matching example_search_def)
  note t = search_similarity_order [OF h, of example_store]
  from t have 1: "sorted_wrt (\<lambda>a b. similarity (embedding b) [1, 1] \<le> similarity (embedding a) [1, 1])
     (results (searchCodeCheckpoints example_store ?input))"
    by (rule conjunct1)
  from t have "results (searchCodeCheckpoints example_store ?input) =
           take (s_limit ?input) (drop (s_offset ?input)
             (order_by_desc (\<lambda>r. similarity (embedding r) [1, 1]) (filter (matching ?input) (rows example_store))))"
    by (elim conjE)
  then have 2: "map (\<lambda>r. (id' r, similarity (embedding r) [1, 1]))
     (results (searchCodeCheckpoints example_store ?input)) = [(2, 17), (3, 6), (1, 3), (4, 0)]"
    unfolding m
    by (simp add: example_search_def example_store_def example_row_def order_by_desc_def
        similarity_zip sql_sum_def coalesce_def)
  from 1 2 show ?thesis by (rule conjI)
qed

section \<open>Pagination\<close>

text \<open>
  C7. In what a search call returns, \<open>total\<close> is the number of rows that pass the filters
  and \<open>has_more\<close> is \<open>offset + limit < total\<close>. The filters do not look at \<open>limit\<close> and
  \<open>offset\<close>, so neither does \<open>total\<close>. With no filters and \<open>limit = 2\<close> on a store of four rows with distinct
  ids, \<open>has_more\<close> is true at offset 0 and false at offset 2, both pages hold two rows, and
  no id is on both pages.
\<close>

theorem search_has_more:
  "total' (searchCodeCheckpoints db input) = length (filter (matching input) (rows db)) \<and>
   has_more (searchCodeCheckpoints db input) =
     (s_offset input + s_limit input < total' (searchCodeCheckpoints db input)) \<and>
   matching (input\<lparr>s_limit := l, s_offset := k\<rparr>) r = matching input r \<and>
   (length (rows db) = 4 \<and> distinct (map id' (rows db)) \<and>
    s_programming_language input = None \<and> s_tags input = None \<and> s_keywords input = None \<and>
    s_limit input = 2 \<longrightarrow>
      total' (searchCodeCheckpoints db (input\<lparr>s_offset := 0\<rparr>)) = 4 \<and>
      total' (searchCodeCheckpoints db (input\<lparr>s_offset := 2\<rparr>)) = 4 \<and>
      has_more (searchCodeCheckpoints db (input\<lparr>s_offset := 0\<rparr>)) \<and>
      \<not> has_more (searchCodeCheckpoints db (input\<lparr>s_offset := 2\<rparr>)) \<and>
      length (results (searchCodeCheckpoints db (input\<lparr>s_offset := 0\<rparr>))) = 2 \<and>
      length (results (searchCodeCheckpoints db (input\<lparr>s_offset := 2\<rparr>))) = 2 \<and>
      id' ` set (results (searchCodeCheckpoints db (input\<lparr>s_offset := 0\<rparr>))) \<inter>
      id' ` set (results (searchCodeCheckpoints db (input\<lparr>s_offset := 2\<rparr>))) = {})"
proof (intro conjI impI)
  show "total' (searchCodeCheckpoints db input) = length (filter (matching input) (rows db))"
    by (simp add: search_returns)
  show "has_more (searchCodeCheckpoints db input) =
     (s_offset input + s_limit input < total' (searchCodeCheckpoints db input))"
    by (simp add: search_returns)
  show "matching (input\<lparr>s_limit := l, s_offset := k\<rparr>) r = matching input r"
    by (rule matching_page)
next
  assume a: "length (rows db) = 4 \<and> distinct (map id' (rows db)) \<and>
    s_programming_language input = None \<and> s_tags input = None \<and> s_keywords input = None \<and>
    s_limit input = 2"
  let ?i0 = "input\<lparr>s_offset := 0\<rparr>" and ?i2 = "input\<lparr>s_offset := 2\<rparr>"
  have all0: "filter (matching ?i0) (rows db) = rows db"
    using a by (simp add: no_filters_matching)
  have all2: "filter (matching ?i2) (rows db) = rows db"
    using a by (simp add: no_filters_matching)
  have po: "queryWithOrder ?i2 (rows db) = queryWithOrder ?i0 (rows db)"
    by (simp add: queryWithOrder_def)
  let ?xs = "queryWithOrder ?i0 (rows db)"
  have len: "length ?xs = 4"
    using a mset_queryWithOrder [of ?i0 "rows db"] by (metis size_mset)
  have "mset (map id' ?xs) = mset (map id' (rows db))"
    by (simp add: mset_queryWithOrder)
  then have d: "distinct (map id' ?xs)"
    using a by (metis mset_eq_imp_distinct_iff)
  have r0: "searchCodeCheckpoints db ?i0 = \<lparr>results = take 2 ?xs, total' = 4, has_more = True\<rparr>"
    using a by (simp add: search_returns all0)
  have r2: "searchCodeCheckpoints db ?i2 = \<lparr>results = take 2 (drop 2 ?xs), total' = 4, has_more = False\<rparr>"
    using a by (simp add: search_returns all2 po)
  have dis: "id' ` set (take 2 ?xs) \<inter> id' ` set (take 2 (drop 2 ?xs)) = {}"
    using d by (rule page_ids_disjoint)
  show "total' (searchCodeCheckpoints db ?i0) = 4" by (simp add: r0)
  show "total' (searchCodeCheckpoints db ?i2) = 4" by (simp add: r2)
  show "has_more (searchCodeCheckpoints db ?i0)" by (simp add: r0)
  show "\<not> has_more (searchCodeCheckpoints db ?i2)" by (simp add: r2)
  show "length (results (searchCodeCheckpoints db ?i0)) = 2" using len by (simp add: r0)
  show "length (results (searchCodeCheckpoints db ?i2)) = 2" using len by (simp add: r2)
  show "id' ` set (results (searchCodeCheckpoints db ?i0)) \<inter>
      id' ` set (results (searchCodeCheckpoints db ?i2)) = {}"
    using dis by (simp add: r0 r2)
qed

theorem search_has_more_witness:
  "total' (searchCodeCheckpoints example_store ((example_search 2 0)\<lparr>s_offset := 0\<rparr>)) = 4 \<and>
   total' (searchCodeCheckpoints example_store ((example_search 2 0)\<lparr>s_offset := 2\<rparr>)) = 4 \<and>
   has_more (searchCodeCheckpoints example_store ((example_search 2 0)\<lparr>s_offset := 0\<rparr>)) \<and>
   \<not> has_more (searchCodeCheckpoints example_store ((example_search 2 0)\<lparr>s_offset := 2\<rparr>)) \<and>
   length (results (searchCodeCheckpoints example_store ((example_search 2 0)\<lparr>s_offset := 0\<rparr>))) = 2 \<and>
   length (results (searchCodeCheckpoints example_store ((example_search 2 0)\<lparr>s_offset := 2\<rparr>))) = 2 \<and>
   id' ` set (results (searchCodeCheckpoints example_store ((example_search 2 0)\<lparr>s_offset := 0\<rparr>))) \<inter>
   id' ` set (results (searchCodeCheckpoints example_store ((example_search 2 0)\<lparr>s_offset := 2\<rparr>))) = {}"
proof -
  have h: "length (rows example_store) = 4 \<and> distinct (map id' (rows example_store)) \<and>
    s_programming_language (example_search 2 0) = None \<and> s_tags (example_search 2 0) = None \<and>
    s_keywords (example_search 2 0) = None \<and> s_limit (example_search 2 0) = 2"
    by (simp add: example_search_def example_store_def example_row_def)
  note t = search_has_more [of example_store "example_search 2 0" 2 0 "example_row 1 [] [] [] [] 0"]
  from t have "length (rows example_store) = 4 \<and> distinct (map id' (rows example_store)) \<and>
    s_programming_language (example_search 2 0) = None \<and> s_tags (example_search 2 0) = None \<and>
    s_keywords (example_search 2 0) = None \<and> s_limit (example_search 2 0) = 2 \<longrightarrow>
   total' (searchCodeCheckpoints example_store ((example_search 2 0)\<lparr>s_offset := 0\<rparr>)) = 4 \<and>
   total' (searchCodeCheckpoints example_store ((example_search 2 0)\<lparr>s_offset := 2\<rparr>)) = 4 \<and>
   has_more (searchCodeCheckpoints example_store ((example_search 2 0)\<lparr>s_offset := 0\<rparr>)) \<and>
   \<not> has_more (searchCodeCheckpoints example_store ((example_search 2 0)\<lparr>s_offset := 2\<rparr>)) \<and>
   length (results (searchCodeCheckpoints example_store ((example_search 2 0)\<lparr>s_offset := 0\<rparr>))) = 2 \<and>
   length (results (searchCodeCheckpoints example_store ((example_search 2 0)\<lparr>s_offset := 2\<rparr>))) = 2 \<and>
   id' ` set (results (searchCodeCheckpoints example_store ((example_search 2 0)\<lparr>s_offset := 0\<rparr>))) \<inter>
   id' ` set (results (searchCodeCheckpoints example_store ((example_search 2 0)\<lparr>s_offset := 2\<rparr>))) = {}"
    by (elim conjE)
  from this h show ?thesis by (rule mp)
qed

section \<open>Partial update\<close>

text \<open>
  C8. For a row \<open>r\<close> of a store with distinct ids and an input with the id of \<open>r\<close> in which
  some key has a value or which has no key but \<open>id\<close>, \<open>updateCodeCheckpoint\<close> returns the row
  \<open>r'\<close> that the store then holds under the id: \<open>id\<close> and \<open>created_at\<close> are those of
  \<open>r\<close>, each of the seven other fields is the value the input supplies, or that of \<open>r\<close>
  when the input supplies none, and the rows of the other ids are as before. An input that
  supplies only the title changes only the title; an input with no key but \<open>id\<close> returns
  \<open>r\<close> and leaves the store as it was. For an integer of the range of the id column that is
  the id of no row, the result is \<open>null\<close> and the store is as it was; for a number that
  is no integer of that range, the handler throws the error of the database.
\<close>

theorem updateCodeCheckpoint_frame:
  "(distinct (map id' (rows db)) \<and> r \<in> set (rows db) \<and> u_id input = JInteger (id' r) \<and>
    is_int4 (id' r) \<and> (object_keys input = [] \<or> values_to_set input \<noteq> []) \<longrightarrow>
      (\<exists>r'. snd (updateCodeCheckpoint db input) = Inr (Some r') \<and>
         getCodeCheckpointById (fst (updateCodeCheckpoint db input)) (JInteger (id' r)) =
           Inr (Some r') \<and>
         id' r' = id' r \<and> created_at r' = created_at r \<and>
         title r' = (case u_title input of Present v \<Rightarrow> v | _ \<Rightarrow> title r) \<and>
         summary r' = (case u_summary input of Present v \<Rightarrow> v | _ \<Rightarrow> summary r) \<and>
         code_snippet r' = (case u_code_snippet input of Present v \<Rightarrow> v | _ \<Rightarrow> code_snippet r) \<and>
         user_feedback r' = (case u_user_feedback input of Present v \<Rightarrow> v | _ \<Rightarrow> user_feedback r) \<and>
         programming_language r' =
           (case u_programming_language input of Present v \<Rightarrow> v | _ \<Rightarrow> programming_language r) \<and>
         tags r' = (case u_tags input of Present v \<Rightarrow> v | _ \<Rightarrow> tags r) \<and>
         embedding r' = (case u_embedding input of Present v \<Rightarrow> v | _ \<Rightarrow> embedding r) \<and>
         filter (\<lambda>x. id' x \<noteq> id' r) (rows (fst (updateCodeCheckpoint db input))) =
           filter (\<lambda>x. id' x \<noteq> id' r) (rows db) \<and>
         (u_summary input = Absent \<and> u_code_snippet input = Absent \<and>
          u_user_feedback input = Absent \<and> u_programming_language input = Absent \<and>
          u_tags input = Absent \<and> u_embedding input = Absent \<longrightarrow>
            r' = r\<lparr>title := (case u_title input of Present v \<Rightarrow> v | _ \<Rightarrow> title r)\<rparr>) \<and>
         (object_keys input = [] \<longrightarrow> r' = r \<and> fst (updateCodeCheckpoint db input) = db))) \<and>
   (u_id input = JInteger i \<and> is_int4 i \<and> i \<notin> id' ` set (rows db) \<and>
    (object_keys input = [] \<or> values_to_set input \<noteq> []) \<longrightarrow>
      updateCodeCheckpoint db input = (db, Inr None)) \<and>
   ((u_id input = JNonInteger \<or> (\<exists>k. u_id input = JInteger k \<and> \<not> is_int4 k)) \<and>
    (object_keys input = [] \<or> values_to_set input \<noteq> []) \<longrightarrow>
      updateCodeCheckpoint db input = (db, Inl DatabaseError))"
proof (intro conjI impI)
  assume a: "distinct (map id' (rows db)) \<and> r \<in> set (rows db) \<and> u_id input = JInteger (id' r) \<and>
    is_int4 (id' r) \<and> (object_keys input = [] \<or> values_to_set input \<noteq> [])"
  then have k: "distinct (map id' (rows db))" "r \<in> set (rows db)" "u_id input = JInteger (id' r)"
    "is_int4 (id' r)" "object_keys input = [] \<or> values_to_set input \<noteq> []"
    by simp_all
  have c: "set_field f x = (case f of Present v \<Rightarrow> v | _ \<Rightarrow> x)" for f :: "'b field" and x
    by (cases f) (simp_all add: set_field_def)
  show "\<exists>r'. snd (updateCodeCheckpoint db input) = Inr (Some r') \<and>
         getCodeCheckpointById (fst (updateCodeCheckpoint db input)) (JInteger (id' r)) =
           Inr (Some r') \<and>
         id' r' = id' r \<and> created_at r' = created_at r \<and>
         title r' = (case u_title input of Present v \<Rightarrow> v | _ \<Rightarrow> title r) \<and>
         summary r' = (case u_summary input of Present v \<Rightarrow> v | _ \<Rightarrow> summary r) \<and>
         code_snippet r' = (case u_code_snippet input of Present v \<Rightarrow> v | _ \<Rightarrow> code_snippet r) \<and>
         user_feedback r' = (case u_user_feedback input of Present v \<Rightarrow> v | _ \<Rightarrow> user_feedback r) \<and>
         programming_language r' =
           (case u_programming_language input of Present v \<Rightarrow> v | _ \<Rightarrow> programming_language r) \<and>
         tags r' = (case u_tags input of Present v \<Rightarrow> v | _ \<Rightarrow> tags r) \<and>
         embedding r' = (case u_embedding input of Present v \<Rightarrow> v | _ \<Rightarrow> embedding r) \<and>
         filter (\<lambda>x. id' x \<noteq> id' r) (rows (fst (updateCodeCheckpoint db input))) =
           filter (\<lambda>x. id' x \<noteq> id' r) (rows db) \<and>
         (u_summary input = Absent \<and> u_code_snippet input = Absent \<and>
          u_user_feedback input = Absent \<and> u_programming_language input = Absent \<and>
          u_tags input = Absent \<and> u_embedding input = Absent \<longrightarrow>
            r' = r\<lparr>title := (case u_title input of Present v \<Rightarrow> v | _ \<Rightarrow> title r)\<rparr>) \<and>
         (object_keys input = [] \<longrightarrow> r' = r \<and> fst (updateCodeCheckpoint db input) = db)"
  proof (intro exI [of _ "set_fields input r"] conjI impI)
    show "snd (updateCodeCheckpoint db input) = Inr (Some (set_fields input r))"
      by (rule update_known(1) [OF k])
    show "getCodeCheckpointById (fst (updateCodeCheckpoint db input)) (JInteger (id' r)) =
            Inr (Some (set_fields input r))"
      by (rule update_known(2) [OF k])
    show "filter (\<lambda>x. id' x \<noteq> id' r) (rows (fst (updateCodeCheckpoint db input))) =
           filter (\<lambda>x. id' x \<noteq> id' r) (rows db)"
      by (rule update_known(3) [OF k])
    show "fst (updateCodeCheckpoint db input) = db" if "object_keys input = []"
      using that by (rule update_known(4) [OF k])
    show "set_fields input r = r" if "object_keys input = []"
      using that by (rule set_fields_none)
    show "set_fields input r = r\<lparr>title := (case u_title input of Present v \<Rightarrow> v | _ \<Rightarrow> title r)\<rparr>"
      if "u_summary input = Absent \<and> u_code_snippet input = Absent \<and>
          u_user_feedback input = Absent \<and> u_programming_language input = Absent \<and>
          u_tags input = Absent \<and> u_embedding input = Absent"
      using that by (simp add: set_fields_def c)
  qed (simp_all add: set_fields_def c)
next
  assume "u_id input = JInteger i \<and> is_int4 i \<and> i \<notin> id' ` set (rows db) \<and>
    (object_keys input = [] \<or> values_to_set input \<noteq> [])"
  then show "updateCodeCheckpoint db input = (db, Inr None)"
    using update_unknown [of input i db] by blast
next
  assume b: "(u_id input = JNonInteger \<or> (\<exists>k. u_id input = JInteger k \<and> \<not> is_int4 k)) \<and>
    (object_keys input = [] \<or> values_to_set input \<noteq> [])"
  then have "int4_param (u_id input) = Inl DatabaseError"
    by (auto simp: int4_param_bad)
  with b show "updateCodeCheckpoint db input = (db, Inl DatabaseError)"
    using update_bad_id [of input DatabaseError db] by blast
qed

theorem updateCodeCheckpoint_frame_witness:
  "(\<exists>r'. snd (updateCodeCheckpoint example_store
              \<lparr>u_id = JInteger 2, u_title = Present ''Pandas'', u_summary = Absent,
               u_code_snippet = Absent, u_user_feedback = Absent,
               u_programming_language = Absent, u_tags = Absent, u_embedding = Absent\<rparr>) =
            Inr (Some r') \<and>
      r' = (example_row 2 ''Python Data'' ''Python'' [''python'', ''pandas''] [9, 8, 7] 200)\<lparr>title := ''Pandas''\<rparr>) \<and>
   updateCodeCheckpoint example_store
     \<lparr>u_id = JInteger 99, u_title = Present ''Pandas'', u_summary = Absent,
      u_code_snippet = Absent, u_user_feedback = Absent, u_programming_language = Absent,
      u_tags = Absent, u_embedding = Absent\<rparr> =
     (example_store, Inr None) \<and>
   updateCodeCheckpoint example_store
     \<lparr>u_id = JNonInteger, u_title = Present ''Pandas'', u_summary = Absent,
      u_code_snippet = Absent, u_user_feedback = Absent, u_programming_language = Absent,
      u_tags = Absent, u_embedding = Absent\<rparr> =
     (example_store, Inl DatabaseError)"
proof -
  let ?u = "\<lparr>u_id = JInteger 2, u_title = Present ''Pandas'', u_summary = Absent,
               u_code_snippet = Absent, u_user_feedback = Absent,
               u_programming_language = Absent, u_tags = Absent,
               u_embedding = Absent :: int list field\<rparr>"
  let ?r = "example_row 2 ''Python Data'' ''Python'' [''python'', ''pandas''] [9, 8, 7] 200"
  have v: "object_keys w = [] \<or> values_to_set w \<noteq> []" if "u_title w = Present ''Pandas''"
    for w :: "int UpdateCodeCheckpointInput"
    using that by (simp add: values_to_set_def key_if_valued_def)
  have h: "distinct (map id' (rows example_store)) \<and> ?r \<in> set (rows example_store) \<and>
           u_id ?u = JInteger (id' ?r) \<and> is_int4 (id' ?r) \<and>
           (object_keys ?u = [] \<or> values_to_set ?u \<noteq> [])"
    using v [of ?u] by (simp add: example_store_def example_row_def is_int4_def)
  have t: "u_summary ?u = Absent \<and> u_code_snippet ?u = Absent \<and> u_user_feedback ?u = Absent \<and>
          u_programming_language ?u = Absent \<and> u_tags ?u = Absent \<and> u_embedding ?u = Absent"
    by simp
  have n: "u_id (?u\<lparr>u_id := JInteger 99\<rparr>) = JInteger 99 \<and> is_int4 99 \<and>
           99 \<notin> id' ` set (rows example_store) \<and>
           (object_keys (?u\<lparr>u_id := JInteger 99\<rparr>) = [] \<or> values_to_set (?u\<lparr>u_id := JInteger 99\<rparr>) \<noteq> [])"
    using v [of "?u\<lparr>u_id := JInteger 99\<rparr>"] by (simp add: example_store_def example_row_def is_int4_def)
  have e: "(u_id (?u\<lparr>u_id := JNonInteger\<rparr>) = JNonInteger \<or>
            (\<exists>k. u_id (?u\<lparr>u_id := JNonInteger\<rparr>) = JInteger k \<and> \<not> is_int4 k)) \<and>
           (object_keys (?u\<lparr>u_id := JNonInteger\<rparr>) = [] \<or> values_to_set (?u\<lparr>u_id := JNonInteger\<rparr>) \<noteq> [])"
    using v [of "?u\<lparr>u_id := JNonInteger\<rparr>"] by simp
  from conjunct1 [OF updateCodeCheckpoint_frame [of example_store ?r ?u], THEN mp, OF h] t
  have 1: "\<exists>r'. snd (updateCodeCheckpoint example_store ?u) = Inr (Some r') \<and> r' = ?r\<lparr>title := ''Pandas''\<rparr>"
    by (elim exE conjE) simp
  from conjunct1 [OF conjunct2 [OF updateCodeCheckpoint_frame [of example_store ?r "?u\<lparr>u_id := JInteger 99\<rparr>" 99]],
      THEN mp, OF n]
  have 2: "updateCodeCheckpoint example_store (?u\<lparr>u_id := JInteger 99\<rparr>) = (example_store, Inr None)" .
  from conjunct2 [OF conjunct2 [OF updateCodeCheckpoint_frame [of example_store ?r "?u\<lparr>u_id := JNonInteger\<rparr>" 0]],
      THEN mp, OF e]
  have 3: "updateCodeCheckpoint example_store (?u\<lparr>u_id := JNonInteger\<rparr>) = (example_store, Inl DatabaseError)" .
  from 1 2 3 show ?thesis by simp
qed

text \<open>
  The claim as written (the absent marker for every id that no record has) fails: 2147483648
  is the id of no row, and for it the update with no field does not return \<open>null\<close> but
  throws the error with which the database refuses the number.
\<close>

theorem updateCodeCheckpoint_frame_counterexample:
  "updateCodeCheckpoint example_store
     \<lparr>u_id = JInteger 2147483648, u_title = Absent, u_summary = Absent, u_code_snippet = Absent,
      u_user_feedback = Absent, u_programming_language = Absent, u_tags = Absent,
      u_embedding = Absent\<rparr> =
   (example_store, Inl DatabaseError)"
  by (simp add: updateCodeCheckpoint_def object_keys_def key_if_present_def int4_param_def
      is_int4_def)

section \<open>Delete\<close>

text \<open>
  C9. For an integer \<open>i\<close> of the range of the id column, \<open>deleteCodeCheckpoint\<close> returns true
  exactly when a row has the id \<open>i\<close>; it removes the rows with the id and no other; when it
  returns false the store is as it was; and afterwards \<open>getCodeCheckpointById\<close> finds no
  row with the id. For a number that is no integer, or an integer out of that range, it
  returns neither true nor false: the handler throws the error of the database, and the
  store is as it was.
\<close>

theorem deleteCodeCheckpoint_result:
  "(is_int4 i \<longrightarrow>
      snd (deleteCodeCheckpoint db (JInteger i)) = Inr (\<exists>r \<in> set (rows db). id' r = i) \<and>
      rows (fst (deleteCodeCheckpoint db (JInteger i))) = filter (\<lambda>r. id' r \<noteq> i) (rows db) \<and>
      (snd (deleteCodeCheckpoint db (JInteger i)) = Inr False \<longrightarrow>
         fst (deleteCodeCheckpoint db (JInteger i)) = db) \<and>
      getCodeCheckpointById (fst (deleteCodeCheckpoint db (JInteger i))) (JInteger i) = Inr None) \<and>
   (\<not> is_int4 i \<longrightarrow> deleteCodeCheckpoint db (JInteger i) = (db, Inl DatabaseError)) \<and>
   deleteCodeCheckpoint db JNonInteger = (db, Inl DatabaseError)"
proof (intro conjI impI)
  assume r: "is_int4 i"
  note p = int4_param_ok [OF r]
  show "snd (deleteCodeCheckpoint db (JInteger i)) = Inr (\<exists>r \<in> set (rows db). id' r = i)"
    by (auto simp: deleteCodeCheckpoint_def delete_where_def filter_empty_conv p)
  show "rows (fst (deleteCodeCheckpoint db (JInteger i))) = filter (\<lambda>r. id' r \<noteq> i) (rows db)"
    by (simp add: deleteCodeCheckpoint_def delete_where_def p)
  show "getCodeCheckpointById (fst (deleteCodeCheckpoint db (JInteger i))) (JInteger i) = Inr None"
    by (simp add: deleteCodeCheckpoint_def delete_where_def getCodeCheckpointById_def p)
  assume "snd (deleteCodeCheckpoint db (JInteger i)) = Inr False"
  then have "i \<notin> id' ` set (rows db)"
    by (auto simp: deleteCodeCheckpoint_def delete_where_def filter_empty_conv p)
  then show "fst (deleteCodeCheckpoint db (JInteger i)) = db"
    using filter_other_ids [of i id' "rows db"]
    by (simp add: deleteCodeCheckpoint_def delete_where_def p)
next
  assume "\<not> is_int4 i"
  then show "deleteCodeCheckpoint db (JInteger i) = (db, Inl DatabaseError)"
    by (simp add: deleteCodeCheckpoint_def int4_param_bad)
next
  show "deleteCodeCheckpoint db JNonInteger = (db, Inl DatabaseError)"
    by (simp add: deleteCodeCheckpoint_def int4_param_bad)
qed

theorem deleteCodeCheckpoint_result_witness:
  "snd (deleteCodeCheckpoint example_store (JInteger 2)) = Inr True \<and>
   map id' (rows (fst (deleteCodeCheckpoint example_store (JInteger 2)))) = [1, 3, 4] \<and>
   getCodeCheckpointById (fst (deleteCodeCheckpoint example_store (JInteger 2))) (JInteger 2) =
     Inr None \<and>
   snd (deleteCodeCheckpoint example_store (JInteger 99)) = Inr False \<and>
   fst (deleteCodeCheckpoint example_store (JInteger 99)) = example_store \<and>
   deleteCodeCheckpoint example_store (JInteger (- 2147483649)) = (example_store, Inl DatabaseError)"
proof -
  have i2: "is_int4 2" and i99: "is_int4 99" and low: "\<not> is_int4 (- 2147483649)"
    by (simp_all add: is_int4_def)
  note a = conjunct1 [OF deleteCodeCheckpoint_result [of 2 example_store], THEN mp, OF i2]
  note b = conjunct1 [OF deleteCodeCheckpoint_result [of 99 example_store], THEN mp, OF i99]
  note c = conjunct1 [OF conjunct2 [OF deleteCodeCheckpoint_result [of "- 2147483649" example_store]],
      THEN mp, OF low]
  have 1: "snd (deleteCodeCheckpoint example_store (JInteger 2)) = Inr True"
    using a by (simp add: example_store_def example_row_def)
  have 2: "map id' (rows (fst (deleteCodeCheckpoint example_store (JInteger 2)))) = [1, 3, 4]"
    using a by (simp add: example_store_def example_row_def)
  have 3: "getCodeCheckpointById (fst (deleteCodeCheckpoint example_store (JInteger 2))) (JInteger 2) =
     Inr None"
    using a by simp
  have 4: "snd (deleteCodeCheckpoint example_store (JInteger 99)) = Inr False"
    using b by (simp add: example_store_def example_row_def)
  with b have 5: "fst (deleteCodeCheckpoint example_store (JInteger 99)) = example_store"
    by blast
  from 1 2 3 4 5 c show ?thesis by simp
qed

text \<open>
  The claim as written (false, and never an error, for every id that no record has) fails:
  2147483648 is the id of no row, and for it the handler does not return false but throws
  the error with which the database refuses the number.
\<close>

theorem deleteCodeCheckpoint_result_counterexample:
  "deleteCodeCheckpoint example_store (JInteger 2147483648) = (example_store, Inl DatabaseError)"
  by (simp add: deleteCodeCheckpoint_def int4_param_def is_int4_def)

section \<open>Similarity of vectors of different lengths\<close>

text \<open>
  C10. The similarity of a stored embedding and a query vector is that of their prefixes of
  the common length: the positions that only the longer vector has do not count. It is the
  sum, from the first position on, of the products at the positions both vectors have, and
  it is 0 (a number, not \<open>NULL\<close>) for a stored embedding that is empty.
\<close>

theorem similarity_over_common_prefix:
  "similarity e q =
     similarity (take (min (length e) (length q)) e) (take (min (length e) (length q)) q) \<and>
   similarity e q =
     (case map (\<lambda>i. e ! i * q ! i) [0..<min (length e) (length q)] of
        [] \<Rightarrow> 0
      | p # ps \<Rightarrow> foldl (+) p ps) \<and>
   similarity [] q = 0"
  using similarity_take_min [of e q] similarity_positions [of e q] similarity_empty(1) [of q]
  by (intro conjI)

end
